theory Spec2Isabelle
  imports Complex_Main "HOL-Library.Word" "HOL-Library.Sublist" "HOL-Library.AList"
begin

section \<open>JavaScript strings\<close>

text \<open>
  A JavaScript string is a sequence of 16-bit code units, and every string operation of
  the program (\<^verbatim>\<open>trim\<close>, \<^verbatim>\<open>includes\<close>, \<^verbatim>\<open>join\<close>, the regular expression, template
  literals) works on code units. A string is therefore a list of 16-bit words; \<open>js\<close>
  embeds an ASCII literal, and a code unit outside printable ASCII is written by its
  number.
\<close>

type_synonym jsstring = "16 word list"

definition js :: "string \<Rightarrow> jsstring" where
  "js s = map of_char s"

text \<open>
  \<^verbatim>\<open>WhiteSpace\<close> and \<^verbatim>\<open>LineTerminator\<close> of ECMAScript: the code units that
  \<^verbatim>\<open>String.prototype.trim\<close> removes and that \<^verbatim>\<open>\s\<close> matches.
\<close>

definition isWhiteSpace :: "16 word \<Rightarrow> bool" where
  "isWhiteSpace c =
     (c \<in> {0x09, 0x0A, 0x0B, 0x0C, 0x0D, 0x20, 0xA0, 0x1680, 0x2028, 0x2029, 0x202F,
            0x205F, 0x3000, 0xFEFF}
      \<or> (0x2000 \<le> c \<and> c \<le> 0x200A))"

definition trim :: "jsstring \<Rightarrow> jsstring" where
  "trim s = rev (dropWhile isWhiteSpace (rev (dropWhile isWhiteSpace s)))"

text \<open>\<^verbatim>\<open>s.includes(t)\<close>: \<open>t\<close> occurs in \<open>s\<close> as a contiguous run of code units.\<close>

fun includesStr :: "jsstring \<Rightarrow> jsstring \<Rightarrow> bool" where
  "includesStr [] t = (t = [])"
| "includesStr (c # s) t = (prefix t (c # s) \<or> includesStr s t)"

text \<open>
  \<^verbatim>\<open>String.prototype.toLowerCase\<close> on the code units whose lower-case form contains an
  ASCII letter: \<^verbatim>\<open>A\<close> to \<^verbatim>\<open>Z\<close>, U+0130 (lowered to \<^verbatim>\<open>i\<close> followed by U+0307) and
  U+212A (the Kelvin sign, lowered to \<^verbatim>\<open>k\<close>). Every other code unit is kept as it is:
  its lower-case form is not ASCII either, so whether the result includes an ASCII
  string is not affected.
\<close>

definition lowerUnit :: "16 word \<Rightarrow> jsstring" where
  "lowerUnit c =
     (if 0x41 \<le> c \<and> c \<le> 0x5A then [c + 0x20]
      else if c = 0x0130 then [0x69, 0x0307]
      else if c = 0x212A then [0x6B]
      else [c])"

definition toLowerCase :: "jsstring \<Rightarrow> jsstring" where
  "toLowerCase s = concat (map lowerUnit s)"

text \<open>\<^verbatim>\<open>xs.join(sep)\<close> on an array of strings.\<close>

fun join :: "jsstring \<Rightarrow> jsstring list \<Rightarrow> jsstring" where
  "join sep [] = []"
| "join sep [x] = x"
| "join sep (x # y # ys) = x @ sep @ join sep (y # ys)"

section \<open>JSON values\<close>

text \<open>
  The values \<^verbatim>\<open>JSON.parse\<close> returns and \<^verbatim>\<open>res.json\<close> sends. \<open>JNull\<close> is JavaScript's
  \<^verbatim>\<open>null\<close>; an object is its list of properties in insertion order. A number is the
  real it denotes (rounding to a double is not modelled; no claim depends on it).
\<close>

datatype json =
    JNull
  | JBool bool
  | JNum real
  | JStr jsstring
  | JArr "json list"
  | JObj "(jsstring \<times> json) list"

text \<open>
  The shape the type \<^verbatim>\<open>Feedback\<close> declares (App.tsx, lines 76 to 80): an object with
  exactly the properties \<^verbatim>\<open>isCorrect\<close> (a boolean), \<^verbatim>\<open>feedback\<close> and \<^verbatim>\<open>tip\<close> (strings).
\<close>

definition isBool :: "json option \<Rightarrow> bool" where
  "isBool v = (case v of Some (JBool b) \<Rightarrow> True | _ \<Rightarrow> False)"

definition isText :: "json option \<Rightarrow> bool" where
  "isText v = (case v of Some (JStr t) \<Rightarrow> True | _ \<Rightarrow> False)"

definition isFeedback :: "json \<Rightarrow> bool" where
  "isFeedback v =
     (case v of
        JObj fs \<Rightarrow>
          distinct (map fst fs)
          \<and> set (map fst fs) = {js ''isCorrect'', js ''feedback'', js ''tip''}
          \<and> isBool (map_of fs (js ''isCorrect''))
          \<and> isText (map_of fs (js ''feedback''))
          \<and> isText (map_of fs (js ''tip''))
      | _ \<Rightarrow> False)"

section \<open>Practice items\<close>

datatype practice_item =
    Pair (wordS: jsstring) (ipaS: jsstring) (wordSh: jsstring) (ipaSh: jsstring)
         (pairTranslation: jsstring)
  | Sentence (sentenceText: jsstring) (sentenceIpa: jsstring) (sentenceTranslation: jsstring)

definition PRACTICE_ITEMS :: "practice_item list" where
  "PRACTICE_ITEMS =
    [Pair (js ''sea'') (js ''/si'' @ [0x2D0] @ js ''/'') (js ''she'')
       (js ''/'' @ [0x283] @ js ''i'' @ [0x2D0] @ js ''/'')
       ([0x6D77] @ js '' / '' @ [0x5F7C, 0x5973]),
     Pair (js ''seat'') (js ''/si'' @ [0x2D0] @ js ''t/'') (js ''sheet'')
       (js ''/'' @ [0x283] @ js ''i'' @ [0x2D0] @ js ''t/'')
       ([0x5E2D] @ js '' / '' @ [0x30B7, 0x30FC, 0x30C4]),
     Pair (js ''sell'') (js ''/sel/'') (js ''shell'') (js ''/'' @ [0x283] @ js ''el/'')
       ([0x58F2, 0x308B] @ js '' / '' @ [0x8C9D, 0x6BBB]),
     Pair (js ''self'') (js ''/self/'') (js ''shelf'') (js ''/'' @ [0x283] @ js ''elf/'')
       ([0x81EA, 0x5DF1] @ js '' / '' @ [0x68DA]),
     Sentence (js ''She sells seashells by the seashore.'')
       (js ''/'' @ [0x283] @ js ''i'' @ [0x2D0] @ js '' selz '' @ [0x2C8] @ js ''si''
        @ [0x2D0, 0x283] @ js ''elz ba'' @ [0x26A] @ js '' '' @ [0xF0, 0x259] @ js '' ''
        @ [0x2C8] @ js ''si'' @ [0x2D0, 0x283, 0x254, 0x2D0] @ js ''r/'')
       ([0x5F7C, 0x5973, 0x306F, 0x6D77, 0x5CB8, 0x3067, 0x8C9D, 0x6BBB, 0x3092, 0x58F2,
         0x308B])]"

section \<open>View state and effects\<close>

datatype status = idle | recording | analyzing | result

text \<open>
  The five \<^verbatim>\<open>React.useState\<close> cells of the component. \<open>feedback\<close> holds whatever value
  \<^verbatim>\<open>setFeedback\<close> was given at run time: \<open>JNull\<close> is \<^verbatim>\<open>null\<close>.
\<close>

record app_state =
  currentItemIndex :: nat
  status :: status
  activeWord :: "jsstring option"
  feedback :: json
  error :: jsstring

text \<open>
  An operation of the component is the list of the things it does, in order: the state
  setters it calls and the calls it makes to the platform and to the text-generation
  service. \<open>GenerateContent m t p\<close> is a request for model \<open>m\<close> with
  \<^verbatim>\<open>responseMimeType\<close> \<open>t\<close> and prompt \<open>p\<close>.
\<close>

datatype effect =
    SetCurrentItemIndex nat
  | SetStatus status
  | SetActiveWord "jsstring option"
  | SetFeedback json
  | SetError jsstring
  | GetUserMedia
  | StopTracks
  | RecognitionStart
  | GenerateContent jsstring jsstring jsstring
  | ConsoleError

fun applyEffect :: "effect \<Rightarrow> app_state \<Rightarrow> app_state" where
  "applyEffect (SetCurrentItemIndex i) s = s\<lparr>currentItemIndex := i\<rparr>"
| "applyEffect (SetStatus st) s = s\<lparr>status := st\<rparr>"
| "applyEffect (SetActiveWord w) s = s\<lparr>activeWord := w\<rparr>"
| "applyEffect (SetFeedback f) s = s\<lparr>feedback := f\<rparr>"
| "applyEffect (SetError e) s = s\<lparr>error := e\<rparr>"
| "applyEffect _ s = s"

definition applyEffects :: "effect list \<Rightarrow> app_state \<Rightarrow> app_state" where
  "applyEffects es s = fold applyEffect es s"

section \<open>Recognition adapter\<close>

text \<open>
  The promise \<^verbatim>\<open>recognizeSpeech\<close> returns. Its executor registers three handlers and
  starts recognition; the platform then delivers events. A result event carries
  \<^verbatim>\<open>event.results\<close>, a list of results, each a list of alternatives, each given by its
  \<^verbatim>\<open>transcript\<close> (\<open>None\<close> when the property is \<^verbatim>\<open>undefined\<close>). \<open>OnNoMatch\<close> stands for
  an event no handler is registered for.
\<close>

datatype 'a promise = Pending | Resolved 'a | Rejected jsstring

datatype recognition_event =
    OnResult "jsstring option list list"
  | OnError jsstring
  | OnEnd
  | OnNoMatch

text \<open>
  One event reaching the handlers. A settled promise ignores later calls of
  \<^verbatim>\<open>resolve\<close> and \<^verbatim>\<open>reject\<close>. Reading \<^verbatim>\<open>event.results[0][0].transcript\<close> throws a
  \<^verbatim>\<open>TypeError\<close> inside the handler when \<^verbatim>\<open>results[0]\<close> or \<^verbatim>\<open>results[0][0]\<close> is missing;
  the promise is then left as it was.
\<close>

fun deliver :: "recognition_event \<Rightarrow> jsstring option promise \<Rightarrow> jsstring option promise" where
  "deliver (OnResult results) Pending =
     (case results of
        [] \<Rightarrow> Pending
      | r0 # _ \<Rightarrow> (case r0 of [] \<Rightarrow> Pending | transcript # _ \<Rightarrow> Resolved transcript))"
| "deliver (OnError code) Pending = Rejected (js ''Speech recognition error: '' @ code)"
| "deliver OnEnd Pending = Pending"
| "deliver OnNoMatch Pending = Pending"
| "deliver ev (Resolved v) = Resolved v"
| "deliver ev (Rejected r) = Rejected r"

text \<open>
  \<open>supported\<close> says whether \<^verbatim>\<open>window.SpeechRecognition || window.webkitSpeechRecognition\<close>
  is truthy; \<open>events\<close> are the events the platform delivers after \<^verbatim>\<open>start()\<close>. The result
  is what the call does and the state the promise ends in. The constructor and
  \<^verbatim>\<open>start()\<close> are taken not to throw: the recognizer is new at every call.
\<close>

definition recognizeSpeech ::
  "bool \<Rightarrow> recognition_event list \<Rightarrow> effect list \<times> jsstring option promise" where
  "recognizeSpeech supported events =
     (if \<not> supported
      then ([], Rejected (js ''Speech recognition not supported in this browser.''))
      else ([RecognitionStart], fold deliver events Pending))"

section \<open>Feedback requester\<close>

text \<open>
  The regular expression \<^verbatim>\<open>/^```(?:json)?\s*\n?(.*?)\n?\s*```$/s\<close>, element by element,
  as a backtracking matcher: each element takes the rest of the input and the
  continuation that matches what follows it, and tries its alternatives in the priority
  order of ECMAScript (a greedy quantifier the longer match first, a lazy one the shorter).
\<close>

definition orElse :: "'r option \<Rightarrow> 'r option \<Rightarrow> 'r option" where
  "orElse a b = (case a of Some r \<Rightarrow> Some r | None \<Rightarrow> b)"

definition lit :: "jsstring \<Rightarrow> jsstring \<Rightarrow> (jsstring \<Rightarrow> 'r option) \<Rightarrow> 'r option" where
  "lit w s k = (if prefix w s then k (drop (length w) s) else None)"

definition optional ::
  "(jsstring \<Rightarrow> (jsstring \<Rightarrow> 'r option) \<Rightarrow> 'r option) \<Rightarrow> jsstring
     \<Rightarrow> (jsstring \<Rightarrow> 'r option) \<Rightarrow> 'r option" where
  "optional m s k = orElse (m s k) (k s)"

fun wsStar :: "jsstring \<Rightarrow> (jsstring \<Rightarrow> 'r option) \<Rightarrow> 'r option" where
  "wsStar [] k = k []"
| "wsStar (c # s) k =
     (if isWhiteSpace c then orElse (wsStar s k) (k (c # s)) else k (c # s))"

text \<open>
  The group \<^verbatim>\<open>(.*?)\<close> under the \<^verbatim>\<open>s\<close> flag (the dot matches every code unit); \<open>acc\<close> is
  what the group has taken so far, reversed.
\<close>

fun anyLazy ::
  "jsstring \<Rightarrow> jsstring \<Rightarrow> (jsstring \<Rightarrow> jsstring \<Rightarrow> 'r option) \<Rightarrow> 'r option" where
  "anyLazy acc [] k = k (rev acc) []"
| "anyLazy acc (c # s) k = orElse (k (rev acc) (c # s)) (anyLazy (c # acc) s k)"

definition fence :: jsstring where
  "fence = [0x60, 0x60, 0x60]"

text \<open>\<open>fenceRegex s\<close> is \<^verbatim>\<open>match[1]\<close> of \<^verbatim>\<open>s.match(fenceRegex)\<close>, \<open>None\<close> when there is no match.\<close>

definition fenceRegex :: "jsstring \<Rightarrow> jsstring option" where
  "fenceRegex s0 =
     lit fence s0 (\<lambda>s1.
     optional (lit (js ''json'')) s1 (\<lambda>s2.
     wsStar s2 (\<lambda>s3.
     optional (lit [0x0A]) s3 (\<lambda>s4.
     anyLazy [] s4 (\<lambda>g s5.
     optional (lit [0x0A]) s5 (\<lambda>s6.
     wsStar s6 (\<lambda>s7.
     lit fence s7 (\<lambda>s8.
     if s8 = [] then Some g else None))))))))"

text \<open>
  Lines 110 to 115: the text handed to \<^verbatim>\<open>JSON.parse\<close>. An empty \<^verbatim>\<open>match[1]\<close> is falsy,
  so the text is then left as it is.
\<close>

definition stripFence :: "jsstring \<Rightarrow> jsstring" where
  "stripFence jsonStr =
     (case fenceRegex jsonStr of
        None \<Rightarrow> jsonStr
      | Some g \<Rightarrow> if g \<noteq> [] then trim g else jsonStr)"

definition buildPrompt :: "jsstring \<Rightarrow> jsstring \<Rightarrow> jsstring \<Rightarrow> jsstring" where
  "buildPrompt targetWord targetIpa transcript =
      js ''You are an expert English pronunciation coach for native Japanese speakers.''
      @ [0x0A] @ js ''A user was asked to say: '' @ [0x22] @
      targetWord @
      [0x22] @ js '' (IPA: '' @
      targetIpa @
      js '').'' @ [0x0A] @ js ''Speech recognition transcribed their attempt as: '' @ [0x22] @
      transcript @
      [0x22] @ js ''.'' @ [0x0A, 0x0A]
      @ js ''Analyze this. Respond ONLY with a JSON object in this format:'' @ [0x0A]
      @ js ''{'' @ [0x0A] @ js ''  '' @ [0x22] @ js ''isCorrect'' @ [0x22] @ js '': boolean,''
      @ [0x0A] @ js ''  '' @ [0x22] @ js ''feedback'' @ [0x22] @ js '': '' @ [0x22]
      @ js ''A short, encouraging message about the pronunciation. Example: '' @ [0x27]
      @ js ''Good try! It sounded like '' @ [0x27] @ js ''ship'' @ [0x27] @ js '' instead of ''
      @ [0x27] @ js ''sip'' @ [0x27] @ js ''.'' @ [0x22, 0x22] @ js '','' @ [0x0A] @ js ''  ''
      @ [0x22] @ js ''tip'' @ [0x22] @ js '': '' @ [0x22]
      @ js ''A concrete tip focusing on tongue/lip placement for /s/ vs /'' @ [0x283]
      @ js ''/. Contrast with Japanese sounds if helpful. If correct, give a general encouragement tip.''
      @ [0x22, 0x0A] @ js ''}''"

text \<open>
  A value caught by \<^verbatim>\<open>catch (err)\<close>: an instance of \<^verbatim>\<open>Error\<close> with its \<^verbatim>\<open>name\<close> and
  \<^verbatim>\<open>message\<close>, a string, or anything else.
\<close>

datatype thrown = ErrorObject (name: jsstring) (message: jsstring) | StringValue jsstring | OtherValue

text \<open>
  What the text-generation service does with the request: \<open>AiThrows e\<close> when
  \<^verbatim>\<open>generateContent\<close> or \<^verbatim>\<open>response.text()\<close> throws \<open>e\<close>, \<open>AiText t\<close> when
  \<^verbatim>\<open>response.text()\<close> returns \<open>t\<close>.
\<close>

datatype ai_outcome = AiThrows thrown | AiText jsstring

definition analysisFailed :: "effect list" where
  "analysisFailed =
     [ConsoleError, SetError (js ''Couldn'' @ [0x27] @ js ''t get feedback from AI. Please try again.''),
      SetStatus idle]"

text \<open>
  \<open>parse\<close> is the platform's \<^verbatim>\<open>JSON.parse\<close> (\<open>None\<close>: it throws a \<^verbatim>\<open>SyntaxError\<close>);
  \<open>ai\<close> says whether the client exists, that is whether the API key is truthy. The type
  annotation of \<^verbatim>\<open>feedbackResult\<close> is erased at run time: the parsed value goes to
  \<^verbatim>\<open>setFeedback\<close> as it is.
\<close>

definition analyzePronunciation ::
  "(jsstring \<Rightarrow> json option) \<Rightarrow> bool \<Rightarrow> ai_outcome \<Rightarrow> jsstring \<Rightarrow> jsstring \<Rightarrow> jsstring
     \<Rightarrow> effect list" where
  "analyzePronunciation parse ai outcome targetWord targetIpa transcript =
     (if \<not> ai then [SetError (js ''API key is not configured.''), SetStatus idle]
      else
        [SetStatus analyzing, SetError [], SetFeedback JNull,
         GenerateContent (js ''gemini-pro'') (js ''application/json'')
           (buildPrompt targetWord targetIpa transcript)]
        @ (case outcome of
             AiThrows e \<Rightarrow> analysisFailed
           | AiText jsonStr \<Rightarrow>
               (case parse (stripFence jsonStr) of
                  None \<Rightarrow> analysisFailed
                | Some feedbackResult \<Rightarrow> [SetFeedback feedbackResult, SetStatus result])))"

section \<open>Recording\<close>

definition errorMessage :: "thrown \<Rightarrow> jsstring" where
  "errorMessage err =
     (case err of
        ErrorObject n m \<Rightarrow>
          if n = js ''NotAllowedError'' \<or> n = js ''PermissionDeniedError'' then
            js ''Microphone permission denied. Please allow access in your browser settings and try again.''
          else if n = js ''NotFoundError'' then
            js ''No microphone found. Please connect a microphone and try again.''
          else if n = js ''NotReadableError'' then
            js ''Microphone is already in use by another app. Please close it and try again.''
          else if includesStr (toLowerCase m) (js ''api key'') then
            js ''AI analysis failed. Please check API key configuration and permissions.''
          else js ''An error occurred: '' @ m
      | StringValue s \<Rightarrow> s
      | OtherValue \<Rightarrow> js ''An unknown error occurred during recording.'')"

definition recordingFailed :: "thrown \<Rightarrow> effect list" where
  "recordingFailed err = [ConsoleError, SetError (errorMessage err), SetStatus idle]"

datatype media_outcome = MediaThrows thrown | MediaStream

text \<open>\<^verbatim>\<open>!transcript || transcript.trim() === ''\<close>.\<close>

definition noSpeech :: "jsstring option \<Rightarrow> bool" where
  "noSpeech transcript =
     (case transcript of None \<Rightarrow> True | Some t \<Rightarrow> t = [] \<or> trim t = [])"

text \<open>
  \<^verbatim>\<open>handleRecord\<close> of App.tsx. \<open>mediaDevices\<close> says whether
  \<^verbatim>\<open>navigator.mediaDevices.getUserMedia\<close> exists, \<open>media\<close> is what \<^verbatim>\<open>getUserMedia\<close> does,
  \<open>events\<close> and \<open>outcome\<close> are what the recognizer and the text-generation service do.
  While the promise of \<^verbatim>\<open>recognizeSpeech\<close> is pending the operation goes no further.
\<close>

definition handleRecord ::
  "(jsstring \<Rightarrow> json option) \<Rightarrow> bool \<Rightarrow> bool \<Rightarrow> bool \<Rightarrow> media_outcome
     \<Rightarrow> recognition_event list \<Rightarrow> ai_outcome \<Rightarrow> jsstring \<Rightarrow> jsstring \<Rightarrow> effect list" where
  "handleRecord parse ai mediaDevices supported media events outcome word ipa =
     (if \<not> mediaDevices then
        [SetError (js ''Your browser does not support microphone access. Please try on a modern browser like Chrome or Firefox.''),
         SetStatus idle]
      else if \<not> supported then
        [SetError (js ''Speech recognition is not supported in this browser. Please try on a modern browser like Chrome or Firefox.''),
         SetStatus idle]
      else
        [SetActiveWord (Some word), SetStatus recording, SetError [], SetFeedback JNull,
         GetUserMedia]
        @ (case media of
             MediaThrows err \<Rightarrow> recordingFailed err
           | MediaStream \<Rightarrow>
               StopTracks # fst (recognizeSpeech supported events)
               @ (case snd (recognizeSpeech supported events) of
                    Pending \<Rightarrow> []
                  | Rejected reason \<Rightarrow> recordingFailed (StringValue reason)
                  | Resolved transcript \<Rightarrow>
                      if noSpeech transcript then
                        [SetError (js ''Couldn'' @ [0x27] @ js ''t hear any speech. Please try speaking a bit louder or closer to the mic.''),
                         SetStatus idle]
                      else analyzePronunciation parse ai outcome word ipa (the transcript))))"

text \<open>
  \<^verbatim>\<open>handleRecord\<close> of index.tsx: no check of the platform, of the microphone or of the
  transcript. An \<^verbatim>\<open>undefined\<close> transcript reads \<^verbatim>\<open>undefined\<close> in the template literal;
  the only values its \<^verbatim>\<open>catch\<close> receives are the strings \<^verbatim>\<open>recognizeSpeech\<close> rejects with.
\<close>

definition handleRecord_index ::
  "(jsstring \<Rightarrow> json option) \<Rightarrow> bool \<Rightarrow> bool \<Rightarrow> recognition_event list \<Rightarrow> ai_outcome
     \<Rightarrow> jsstring \<Rightarrow> jsstring \<Rightarrow> effect list" where
  "handleRecord_index parse ai supported events outcome word ipa =
     [SetActiveWord (Some word), SetStatus recording, SetError [], SetFeedback JNull]
     @ fst (recognizeSpeech supported events)
     @ (case snd (recognizeSpeech supported events) of
          Pending \<Rightarrow> []
        | Rejected reason \<Rightarrow> [ConsoleError, SetError reason, SetStatus idle]
        | Resolved transcript \<Rightarrow>
            analyzePronunciation parse ai outcome word ipa
              (case transcript of None \<Rightarrow> js ''undefined'' | Some t \<Rightarrow> t))"

section \<open>Next item\<close>

definition handleNextItem :: "app_state \<Rightarrow> effect list" where
  "handleNextItem s =
     [SetCurrentItemIndex ((currentItemIndex s + 1) mod length PRACTICE_ITEMS),
      SetStatus idle, SetFeedback JNull, SetError [], SetActiveWord None]"

definition pressNext :: "app_state \<Rightarrow> app_state" where
  "pressNext s = applyEffects (handleNextItem s) s"

section \<open>Backend transcription handler\<close>

text \<open>
  The request as the handler reads it: \<^verbatim>\<open>req.method\<close> and \<^verbatim>\<open>req.body\<close> (\<open>None\<close> when the
  body is \<^verbatim>\<open>undefined\<close>).
\<close>

record request =
  req_method :: jsstring
  req_body :: "json option"

text \<open>
  \<^verbatim>\<open>v.k\<close> in JavaScript: reading a property of \<^verbatim>\<open>undefined\<close> or \<^verbatim>\<open>null\<close> throws a
  \<^verbatim>\<open>TypeError\<close> (the outer \<open>None\<close>); a property that is missing reads \<^verbatim>\<open>undefined\<close>
  (the inner \<open>None\<close>).
\<close>

fun getProperty :: "json option \<Rightarrow> jsstring \<Rightarrow> json option option" where
  "getProperty None k = None"
| "getProperty (Some JNull) k = None"
| "getProperty (Some (JObj fs)) k = Some (map_of fs k)"
| "getProperty (Some v) k = Some None"

text \<open>Truthiness of a value (\<open>None\<close> is \<^verbatim>\<open>undefined\<close>).\<close>

fun truthy :: "json option \<Rightarrow> bool" where
  "truthy None = False"
| "truthy (Some JNull) = False"
| "truthy (Some (JBool b)) = b"
| "truthy (Some (JNum n)) = (n \<noteq> 0)"
| "truthy (Some (JStr t)) = (t \<noteq> [])"
| "truthy (Some v) = True"

record recognition_config =
  encoding :: jsstring
  sampleRateHertz :: nat
  languageCode :: jsstring
  model :: jsstring

definition config :: recognition_config where
  "config = \<lparr>encoding = js ''WEBM_OPUS'', sampleRateHertz = 48000,
             languageCode = js ''en-US'', model = js ''default''\<rparr>"

text \<open>
  What \<^verbatim>\<open>speechClient.recognize\<close> does: it throws, or it returns a response whose
  \<^verbatim>\<open>results\<close> are given by the transcripts of their \<^verbatim>\<open>alternatives\<close>.
\<close>

datatype recognize_outcome = RecognizeThrows | RecognizeReturns "jsstring list list"

datatype reply = Send jsstring | Json json

text \<open>
  What the handler does: \<open>Recognize a c\<close> is a call of the speech-transcription service
  with audio content \<open>a\<close> and configuration \<open>c\<close>, \<open>Respond n r\<close> is
  \<^verbatim>\<open>res.status(n)\<close> followed by \<^verbatim>\<open>send\<close> or \<^verbatim>\<open>json\<close>.
\<close>

datatype backend_effect =
    Recognize json recognition_config
  | Respond nat reply
  | LogError

definition internalError :: "backend_effect list" where
  "internalError = [LogError, Respond 500 (Send (js ''Internal Server Error''))]"

text \<open>\<^verbatim>\<open>result.alternatives[0].transcript\<close>: a \<^verbatim>\<open>TypeError\<close> when there is no alternative.\<close>

fun firstTranscripts :: "jsstring list list \<Rightarrow> jsstring list option" where
  "firstTranscripts [] = Some []"
| "firstTranscripts (alternatives # results) =
     (case alternatives of
        [] \<Rightarrow> None
      | transcript # _ \<Rightarrow> map_option ((#) transcript) (firstTranscripts results))"

definition handler :: "request \<Rightarrow> recognize_outcome \<Rightarrow> backend_effect list" where
  "handler req outcome =
     (if req_method req \<noteq> js ''POST'' then [Respond 405 (Send (js ''Method Not Allowed''))]
      else
        (case getProperty (req_body req) (js ''audio'') of
           None \<Rightarrow> internalError
         | Some audioBytes \<Rightarrow>
             if \<not> truthy audioBytes then
               [Respond 400 (Send (js ''Bad Request: Missing audio data.''))]
             else
               Recognize (the audioBytes) config
               # (case outcome of
                    RecognizeThrows \<Rightarrow> internalError
                  | RecognizeReturns results \<Rightarrow>
                      (case firstTranscripts results of
                         None \<Rightarrow> internalError
                       | Some ts \<Rightarrow>
                           [Respond 200
                              (Json (JObj [(js ''transcription'', JStr (join [0x0A] ts))]))]))))"

definition serviceCalls :: "backend_effect list \<Rightarrow> nat" where
  "serviceCalls es = length (filter (\<lambda>e. case e of Recognize a c \<Rightarrow> True | _ \<Rightarrow> False) es)"

definition responses :: "backend_effect list \<Rightarrow> (nat \<times> reply) list" where
  "responses es = concat (map (\<lambda>e. case e of Respond n r \<Rightarrow> [(n, r)] | _ \<Rightarrow> []) es)"

section \<open>A reference \<^verbatim>\<open>JSON.parse\<close>\<close>

text \<open>
  The operations above take \<^verbatim>\<open>JSON.parse\<close> as a parameter, and the theorems about them
  hold for every parser. To run them on concrete texts, this section gives a parser of the
  JSON grammar (ECMA-404): a recursive descent with \<open>fuel\<close> bounding the number of nested
  and of successive values; \<open>JSON_parse\<close> gives it the length of the text plus one.
\<close>

definition isJsonWs :: "16 word \<Rightarrow> bool" where
  "isJsonWs c = (c = 0x20 \<or> c = 0x09 \<or> c = 0x0A \<or> c = 0x0D)"

definition skipWs :: "jsstring \<Rightarrow> jsstring" where
  "skipWs s = dropWhile isJsonWs s"

definition isDigit :: "16 word \<Rightarrow> bool" where
  "isDigit c = (0x30 \<le> c \<and> c \<le> 0x39)"

definition hexVal :: "16 word \<Rightarrow> 16 word option" where
  "hexVal c =
     (if 0x30 \<le> c \<and> c \<le> 0x39 then Some (c - 0x30)
      else if 0x41 \<le> c \<and> c \<le> 0x46 then Some (c - 0x37)
      else if 0x61 \<le> c \<and> c \<le> 0x66 then Some (c - 0x57)
      else None)"

definition hex4 :: "16 word \<Rightarrow> 16 word \<Rightarrow> 16 word \<Rightarrow> 16 word \<Rightarrow> 16 word option" where
  "hex4 a b c d =
     (case (hexVal a, hexVal b, hexVal c, hexVal d) of
        (Some w, Some x, Some y, Some z) \<Rightarrow> Some (((w * 16 + x) * 16 + y) * 16 + z)
      | _ \<Rightarrow> None)"

definition escaped :: "16 word \<Rightarrow> 16 word option" where
  "escaped e =
     (if e = 0x22 \<or> e = 0x5C \<or> e = 0x2F then Some e
      else if e = 0x62 then Some 0x08
      else if e = 0x66 then Some 0x0C
      else if e = 0x6E then Some 0x0A
      else if e = 0x72 then Some 0x0D
      else if e = 0x74 then Some 0x09
      else None)"

text \<open>The characters of a string after its opening quote, up to the closing one.\<close>

fun parseString :: "jsstring \<Rightarrow> jsstring \<Rightarrow> (jsstring \<times> jsstring) option" where
  "parseString acc [] = None"
| "parseString acc [c] = (if c = 0x22 then Some (rev acc, []) else None)"
| "parseString acc (c # e # s) =
     (if c = 0x22 then Some (rev acc, e # s)
      else if c = 0x5C then
        (if e = 0x75 then
           (case s of
              h1 # h2 # h3 # h4 # s' \<Rightarrow>
                (case hex4 h1 h2 h3 h4 of
                   None \<Rightarrow> None
                 | Some u \<Rightarrow> parseString (u # acc) s')
            | _ \<Rightarrow> None)
         else
           (case escaped e of
              None \<Rightarrow> None
            | Some x \<Rightarrow> parseString (x # acc) s))
      else if c < 0x20 then None
      else parseString (c # acc) (e # s))"

definition digitsValue :: "jsstring \<Rightarrow> nat" where
  "digitsValue ds = foldl (\<lambda>n d. 10 * n + unat (d - 0x30)) 0 ds"

text \<open>
  A number: an optional minus sign, an integer part without a leading zero, an optional
  fraction and an optional exponent.
\<close>

definition parseNumber :: "jsstring \<Rightarrow> (real \<times> jsstring) option" where
  "parseNumber s =
     (let neg = (s \<noteq> [] \<and> hd s = 0x2D);
          s1 = (if neg then tl s else s);
          ip = (if s1 \<noteq> [] \<and> hd s1 = 0x30 then [0x30] else takeWhile isDigit s1);
          s2 = drop (length ip) s1;
          hasFrac = (s2 \<noteq> [] \<and> hd s2 = 0x2E);
          fp = (if hasFrac then takeWhile isDigit (tl s2) else []);
          s3 = (if hasFrac then drop (length fp) (tl s2) else s2);
          hasExp = (s3 \<noteq> [] \<and> (hd s3 = 0x65 \<or> hd s3 = 0x45));
          s4 = (if hasExp then tl s3 else s3);
          eneg = (hasExp \<and> s4 \<noteq> [] \<and> hd s4 = 0x2D);
          s5 = (if hasExp \<and> s4 \<noteq> [] \<and> (hd s4 = 0x2D \<or> hd s4 = 0x2B) then tl s4 else s4);
          ep = (if hasExp then takeWhile isDigit s5 else []);
          s6 = drop (length ep) s5;
          m = real (digitsValue (ip @ fp)) / 10 ^ length fp;
          v = (if eneg then m / 10 ^ digitsValue ep else m * 10 ^ digitsValue ep)
      in if ip = [] \<or> (hasFrac \<and> fp = []) \<or> (hasExp \<and> ep = []) then None
         else Some (if neg then - v else v, s6))"

fun parseValue :: "nat \<Rightarrow> jsstring \<Rightarrow> (json \<times> jsstring) option"
  and parseElements :: "nat \<Rightarrow> json list \<Rightarrow> jsstring \<Rightarrow> (json list \<times> jsstring) option"
  and parseMembers ::
    "nat \<Rightarrow> (jsstring \<times> json) list \<Rightarrow> jsstring \<Rightarrow> ((jsstring \<times> json) list \<times> jsstring) option"
where
  "parseValue 0 s = None"
| "parseValue (Suc fuel) s =
     (case skipWs s of
        [] \<Rightarrow> None
      | c # r \<Rightarrow>
          if c = 0x7B then
            (case skipWs r of
               [] \<Rightarrow> None
             | d # r' \<Rightarrow>
                 if d = 0x7D then Some (JObj [], r')
                 else map_option (apfst JObj) (parseMembers fuel [] (d # r')))
          else if c = 0x5B then
            (case skipWs r of
               [] \<Rightarrow> None
             | d # r' \<Rightarrow>
                 if d = 0x5D then Some (JArr [], r')
                 else map_option (apfst JArr) (parseElements fuel [] (d # r')))
          else if c = 0x22 then map_option (apfst JStr) (parseString [] r)
          else if prefix (js ''true'') (c # r) then Some (JBool True, drop 4 (c # r))
          else if prefix (js ''false'') (c # r) then Some (JBool False, drop 5 (c # r))
          else if prefix (js ''null'') (c # r) then Some (JNull, drop 4 (c # r))
          else map_option (apfst JNum) (parseNumber (c # r)))"
| "parseElements 0 acc s = None"
| "parseElements (Suc fuel) acc s =
     (case parseValue fuel s of
        None \<Rightarrow> None
      | Some (v, r) \<Rightarrow>
          (case skipWs r of
             [] \<Rightarrow> None
           | c # r' \<Rightarrow>
               if c = 0x5D then Some (rev (v # acc), r')
               else if c = 0x2C then parseElements fuel (v # acc) r'
               else None))"
| "parseMembers 0 acc s = None"
| "parseMembers (Suc fuel) acc s =
     (case skipWs s of
        [] \<Rightarrow> None
      | q # r \<Rightarrow>
          if q \<noteq> 0x22 then None
          else
            (case parseString [] r of
               None \<Rightarrow> None
             | Some (k, r1) \<Rightarrow>
                 (case skipWs r1 of
                    [] \<Rightarrow> None
                  | c # r2 \<Rightarrow>
                      if c \<noteq> 0x3A then None
                      else
                        (case parseValue fuel r2 of
                           None \<Rightarrow> None
                         | Some (v, r3) \<Rightarrow>
                             (case skipWs r3 of
                                [] \<Rightarrow> None
                              | d # r4 \<Rightarrow>
                                  if d = 0x7D then Some (AList.update k v acc, r4)
                                  else if d = 0x2C then
                                    parseMembers fuel (AList.update k v acc) r4
                                  else None)))))"

definition JSON_parse :: "jsstring \<Rightarrow> json option" where
  "JSON_parse s =
     (case parseValue (Suc (length s)) s of
        None \<Rightarrow> None
      | Some (v, r) \<Rightarrow> if skipWs r = [] then Some v else None)"

section \<open>Observations on what an operation does\<close>

text \<open>The requests sent to the text-generation service: model, \<^verbatim>\<open>responseMimeType\<close>, prompt.\<close>

definition requests :: "effect list \<Rightarrow> (jsstring \<times> jsstring \<times> jsstring) list" where
  "requests es =
     concat (map (\<lambda>e. case e of GenerateContent m t p \<Rightarrow> [(m, t, p)] | _ \<Rightarrow> []) es)"

text \<open>The values other than \<^verbatim>\<open>null\<close> given to \<^verbatim>\<open>setFeedback\<close>.\<close>

definition producedFeedback :: "effect list \<Rightarrow> json list" where
  "producedFeedback es =
     concat (map (\<lambda>e. case e of SetFeedback v \<Rightarrow> (if v = JNull then [] else [v]) | _ \<Rightarrow> []) es)"

text \<open>
  Every \<^verbatim>\<open>setStatus('result')\<close> comes immediately after a \<^verbatim>\<open>setFeedback(v)\<close> with \<open>P v\<close>;
  \<open>prev\<close> is the effect before the list, if any.
\<close>

fun storedBeforeResult :: "(json \<Rightarrow> bool) \<Rightarrow> effect option \<Rightarrow> effect list \<Rightarrow> bool" where
  "storedBeforeResult P prev [] = True"
| "storedBeforeResult P prev (e # es) =
     ((if e = SetStatus result
       then (case prev of Some (SetFeedback v) \<Rightarrow> P v | _ \<Rightarrow> False)
       else True)
      \<and> storedBeforeResult P (Some e) es)"

text \<open>What \<^verbatim>\<open>JSON.parse\<close> makes of the text handed to it, if the service returned a text.\<close>

definition parsedResponse :: "(jsstring \<Rightarrow> json option) \<Rightarrow> ai_outcome \<Rightarrow> json option" where
  "parsedResponse parse outcome =
     (case outcome of AiThrows e \<Rightarrow> None | AiText jsonStr \<Rightarrow> parse (stripFence jsonStr))"

text \<open>
  The event that settles the promise of \<^verbatim>\<open>recognizeSpeech\<close>: an error event, or a result
  event whose \<^verbatim>\<open>results[0][0]\<close> exists.
\<close>

fun settles :: "recognition_event \<Rightarrow> bool" where
  "settles (OnResult ((transcript # alternatives) # results)) = True"
| "settles (OnError code) = True"
| "settles ev = False"

text \<open>
  A response of the service with the shape asked for, used to run the operations:
  \<^verbatim>\<open>{"isCorrect": true, "feedback": "Good try!", "tip": "Keep the tongue low."}\<close>.
\<close>

definition sampleFeedback :: jsstring where
  "sampleFeedback =
     js ''{'' @ [0x22] @ js ''isCorrect'' @ [0x22] @ js '': true, '' @ [0x22] @ js ''feedback''
     @ [0x22] @ js '': '' @ [0x22] @ js ''Good try!'' @ [0x22] @ js '', '' @ [0x22] @ js ''tip''
     @ [0x22] @ js '': '' @ [0x22] @ js ''Keep the tongue low.'' @ [0x22] @ js ''}''"

text \<open>
  What the regular expression amounts to, as proved below (\<open>fenceRegex_fenced\<close>). \<open>closes t\<close>:
  \<open>t\<close> is white space followed by the closing fence and nothing else. \<open>capture acc s\<close>: the
  shortest prefix of \<open>s\<close> after which the rest closes, appended to \<open>acc\<close> reversed.
  \<open>fenced s\<close>: after the opening fence, an optional \<^verbatim>\<open>json\<close> and white space, the captured
  text.
\<close>

definition closes :: "jsstring \<Rightarrow> bool" where
  "closes t = (dropWhile isWhiteSpace t = fence)"

fun capture :: "jsstring \<Rightarrow> jsstring \<Rightarrow> jsstring option" where
  "capture acc [] = None"
| "capture acc (c # s) = (if closes (c # s) then Some (rev acc) else capture (c # acc) s)"

definition fenced :: "jsstring \<Rightarrow> jsstring option" where
  "fenced s0 =
     (if prefix fence s0 then
        capture []
          (dropWhile isWhiteSpace
             (if prefix (js ''json'') (drop 3 s0) then drop 7 s0 else drop 3 s0))
      else None)"

section \<open>The practice items are cycled by index\<close>

lemma length_PRACTICE_ITEMS: "length PRACTICE_ITEMS = 5"
  by (simp add: PRACTICE_ITEMS_def)

lemma pressNext_state:
  "pressNext s = s\<lparr>currentItemIndex := (currentItemIndex s + 1) mod length PRACTICE_ITEMS,
                    status := idle, feedback := JNull, error := [], activeWord := None\<rparr>"
  by (simp add: pressNext_def handleNextItem_def applyEffects_def)

lemma pressNext_funpow:
  "currentItemIndex ((pressNext ^^ n) s) = (currentItemIndex s + n) mod 5"
  if "currentItemIndex s < 5"
  using that
proof (induction n)
  case 0
  then show ?case by simp
next
  case (Suc n)
  then show ?case
    by (simp add: pressNext_state length_PRACTICE_ITEMS mod_Suc_eq)
qed

text \<open>
  C3. The list of practice items is a constant of five items that no operation takes or
  returns. From an index within the list, \<^verbatim>\<open>handleNextItem\<close> sets the index to its
  successor modulo the length of the list; the new index is within the list again, and
  pressing as many times as the list is long brings the index back to where it started.
\<close>

theorem handleNextItem_cycles:
  "currentItemIndex s < length PRACTICE_ITEMS \<Longrightarrow>
     length PRACTICE_ITEMS = 5
     \<and> handleNextItem s ! 0
         = SetCurrentItemIndex ((currentItemIndex s + 1) mod length PRACTICE_ITEMS)
     \<and> currentItemIndex (pressNext s) = (currentItemIndex s + 1) mod length PRACTICE_ITEMS
     \<and> currentItemIndex (pressNext s) < length PRACTICE_ITEMS
     \<and> currentItemIndex ((pressNext ^^ length PRACTICE_ITEMS) s) = currentItemIndex s"
  using pressNext_funpow [of s 5]
  by (simp add: pressNext_state length_PRACTICE_ITEMS handleNextItem_def)

theorem handleNextItem_cycles_witness:
  "currentItemIndex \<lparr>currentItemIndex = 4, status = result, activeWord = None,
       feedback = JNull, error = []\<rparr> < length PRACTICE_ITEMS
   \<and> currentItemIndex (pressNext \<lparr>currentItemIndex = 4, status = result, activeWord = None,
        feedback = JNull, error = []\<rparr>) = 0
   \<and> currentItemIndex ((pressNext ^^ length PRACTICE_ITEMS) \<lparr>currentItemIndex = 4,
        status = result, activeWord = None, feedback = JNull, error = []\<rparr>) = 4"
  using handleNextItem_cycles [of "\<lparr>currentItemIndex = 4, status = result, activeWord = None,
    feedback = JNull, error = []\<rparr>"]
  by (simp add: length_PRACTICE_ITEMS)

section \<open>The prompt and the request\<close>

lemma includesStr_append: "includesStr (p @ t @ q) t"
proof (induction p)
  case Nil
  show ?case
  proof (cases "t @ q")
    case Nil
    then show ?thesis by simp
  next
    case (Cons a list)
    have "prefix t (t @ q)" by simp
    with Cons show ?thesis by simp
  qed
next
  case (Cons c p)
  then show ?case by simp
qed

lemma includesStr_buildPrompt:
  "includesStr (buildPrompt targetWord targetIpa transcript) targetWord
   \<and> includesStr (buildPrompt targetWord targetIpa transcript) targetIpa
   \<and> includesStr (buildPrompt targetWord targetIpa transcript) transcript"
proof -
  obtain a b c d where
    eq: "buildPrompt targetWord targetIpa transcript
           = a @ targetWord @ b @ targetIpa @ c @ transcript @ d"
    unfolding buildPrompt_def by (metis append.assoc)
  have 1: "includesStr (a @ targetWord @ (b @ targetIpa @ c @ transcript @ d)) targetWord"
    by (rule includesStr_append)
  have 2: "includesStr ((a @ targetWord @ b) @ targetIpa @ (c @ transcript @ d)) targetIpa"
    by (rule includesStr_append)
  have 3: "includesStr ((a @ targetWord @ b @ targetIpa @ c) @ transcript @ d) transcript"
    by (rule includesStr_append)
  from 1 2 3 show ?thesis by (simp add: eq)
qed

lemma requests_analyzePronunciation:
  "requests (analyzePronunciation parse ai outcome w i t)
     = (if ai then [(js ''gemini-pro'', js ''application/json'', buildPrompt w i t)] else [])"
  by (simp add: requests_def analyzePronunciation_def analysisFailed_def
      split: ai_outcome.splits option.splits)

text \<open>
  C6. Whatever the target word, its IPA transcription and the recognized transcript are,
  the prompt contains all three, and the one request \<^verbatim>\<open>analyzePronunciation\<close> sends to the
  text-generation service (when the client exists) carries that prompt and the
  \<^verbatim>\<open>responseMimeType\<close> \<^verbatim>\<open>application/json\<close>.
\<close>

theorem prompt_contains_inputs:
  "includesStr (buildPrompt targetWord targetIpa transcript) targetWord
   \<and> includesStr (buildPrompt targetWord targetIpa transcript) targetIpa
   \<and> includesStr (buildPrompt targetWord targetIpa transcript) transcript
   \<and> requests (analyzePronunciation parse True outcome targetWord targetIpa transcript)
       = [(js ''gemini-pro'', js ''application/json'',
           buildPrompt targetWord targetIpa transcript)]"
  using includesStr_buildPrompt [of targetWord targetIpa transcript]
  by (simp add: requests_analyzePronunciation)

theorem prompt_contains_inputs_witness:
  "includesStr (buildPrompt (js ''sea'') (js ''/si'' @ [0x2D0] @ js ''/'') (js ''she''))
     (js ''/si'' @ [0x2D0] @ js ''/'')
   \<and> map (fst \<circ> snd)
        (requests (analyzePronunciation JSON_parse True (AiThrows OtherValue) (js ''sea'')
           (js ''/si'' @ [0x2D0] @ js ''/'') (js ''she'')))
      = [js ''application/json'']"
  using prompt_contains_inputs [of "js ''sea''" "js ''/si'' @ [0x2D0] @ js ''/''" "js ''she''"
      JSON_parse "AiThrows OtherValue"]
  by simp

section \<open>A failed analysis\<close>

lemma applyEffects_simps:
  "applyEffects [] s = s"
  "applyEffects (e # es) s = applyEffects es (applyEffect e s)"
  "applyEffects (es @ es') s = applyEffects es' (applyEffects es s)"
  by (simp_all add: applyEffects_def)

lemma analyze_failed:
  assumes "ai" and "parsedResponse parse outcome = None"
  shows "analyzePronunciation parse ai outcome w i t =
           [SetStatus analyzing, SetError [], SetFeedback JNull,
            GenerateContent (js ''gemini-pro'') (js ''application/json'') (buildPrompt w i t)]
           @ analysisFailed"
  using assms
  by (simp add: analyzePronunciation_def parsedResponse_def
      split: ai_outcome.splits option.splits)

lemma analyze_ok:
  assumes "ai" and "parsedResponse parse outcome = Some v"
  shows "analyzePronunciation parse ai outcome w i t =
           [SetStatus analyzing, SetError [], SetFeedback JNull,
            GenerateContent (js ''gemini-pro'') (js ''application/json'') (buildPrompt w i t),
            SetFeedback v, SetStatus result]"
  using assms
  by (simp add: analyzePronunciation_def parsedResponse_def
      split: ai_outcome.splits option.splits)

text \<open>
  C8. When the request throws, or the text it returns does not parse as JSON,
  \<^verbatim>\<open>analyzePronunciation\<close> ends with the feedback \<^verbatim>\<open>null\<close>, the message that feedback could
  not be got, and the status \<^verbatim>\<open>idle\<close>; the index and the active word are as before. It
  never sets the status \<^verbatim>\<open>result\<close> and stores no feedback.
\<close>

theorem analysis_error_leaves_no_feedback:
  "outcome = AiThrows err
     \<or> (\<exists>jsonStr. outcome = AiText jsonStr \<and> parse (stripFence jsonStr) = None)
   \<Longrightarrow>
     applyEffects (analyzePronunciation parse True outcome targetWord targetIpa transcript) s
       = s\<lparr>status := idle, feedback := JNull,
            error := js ''Couldn'' @ [0x27] @ js ''t get feedback from AI. Please try again.''\<rparr>
     \<and> SetStatus result
          \<notin> set (analyzePronunciation parse True outcome targetWord targetIpa transcript)
     \<and> producedFeedback (analyzePronunciation parse True outcome targetWord targetIpa transcript)
          = []"
proof -
  assume "outcome = AiThrows err
    \<or> (\<exists>jsonStr. outcome = AiText jsonStr \<and> parse (stripFence jsonStr) = None)"
  then have "parsedResponse parse outcome = None"
    by (auto simp: parsedResponse_def)
  from analyze_failed [OF TrueI this] show ?thesis
    by (simp add: applyEffects_simps analysisFailed_def producedFeedback_def)
qed

theorem analysis_error_leaves_no_feedback_witness:
  "JSON_parse (stripFence (js ''Sorry, I cannot help.'')) = None
   \<and> status (applyEffects (analyzePronunciation JSON_parse True (AiText (js ''Sorry, I cannot help.''))
        (js ''sea'') (js ''/si/'') (js ''she''))
        \<lparr>currentItemIndex = 0, status = recording, activeWord = Some (js ''sea''),
          feedback = JNull, error = []\<rparr>) = idle"
proof -
  have p: "JSON_parse (stripFence (js ''Sorry, I cannot help.'')) = None"
    by code_simp
  from analysis_error_leaves_no_feedback [where outcome = "AiText (js ''Sorry, I cannot help.'')"
      and parse = JSON_parse and err = OtherValue
      and targetWord = "js ''sea''" and targetIpa = "js ''/si/''" and transcript = "js ''she''"
      and s = "\<lparr>currentItemIndex = 0, status = recording, activeWord = Some (js ''sea''),
          feedback = JNull, error = []\<rparr>"] p
  show ?thesis by simp
qed

section \<open>No speech, no analysis\<close>

lemma all_dropWhile: "(\<forall>x\<in>set (dropWhile P t). P x) \<longleftrightarrow> (\<forall>x\<in>set t. P x)"
  by (induction t) auto

lemma trim_empty_iff: "trim t = [] \<longleftrightarrow> list_all isWhiteSpace t"
  by (simp add: trim_def dropWhile_eq_Nil_conv list_all_iff all_dropWhile)

lemma noSpeech_iff:
  "noSpeech transcript \<longleftrightarrow> transcript = None \<or> (\<exists>t. transcript = Some t \<and> list_all isWhiteSpace t)"
  by (cases transcript) (auto simp: noSpeech_def trim_empty_iff)

text \<open>
  C9. When the recognizer resolves with a transcript that is absent or consists of white
  space only, \<^verbatim>\<open>handleRecord\<close> sets the message that no speech was heard, returns the
  status to \<^verbatim>\<open>idle\<close> and stops: it sends no request to the text-generation service.
\<close>

theorem no_speech_no_analysis:
  "snd (recognizeSpeech True events) = Resolved transcript \<Longrightarrow>
   transcript = None \<or> (\<exists>t. transcript = Some t \<and> list_all isWhiteSpace t) \<Longrightarrow>
     handleRecord parse ai True True MediaStream events outcome word ipa
       = [SetActiveWord (Some word), SetStatus recording, SetError [], SetFeedback JNull,
          GetUserMedia, StopTracks, RecognitionStart,
          SetError (js ''Couldn'' @ [0x27] @ js ''t hear any speech. Please try speaking a bit louder or closer to the mic.''),
          SetStatus idle]
     \<and> requests (handleRecord parse ai True True MediaStream events outcome word ipa) = []
     \<and> applyEffects (handleRecord parse ai True True MediaStream events outcome word ipa) s
         = s\<lparr>activeWord := Some word, status := idle, feedback := JNull,
              error := js ''Couldn'' @ [0x27] @ js ''t hear any speech. Please try speaking a bit louder or closer to the mic.''\<rparr>"
proof -
  assume r: "snd (recognizeSpeech True events) = Resolved transcript"
    and "transcript = None \<or> (\<exists>t. transcript = Some t \<and> list_all isWhiteSpace t)"
  then have n: "noSpeech transcript" by (simp add: noSpeech_iff)
  have f: "fst (recognizeSpeech True events) = [RecognitionStart]"
    by (simp add: recognizeSpeech_def)
  have eq: "handleRecord parse ai True True MediaStream events outcome word ipa
       = [SetActiveWord (Some word), SetStatus recording, SetError [], SetFeedback JNull,
          GetUserMedia, StopTracks, RecognitionStart,
          SetError (js ''Couldn'' @ [0x27] @ js ''t hear any speech. Please try speaking a bit louder or closer to the mic.''),
          SetStatus idle]"
    by (simp add: handleRecord_def r n f)
  show ?thesis
    unfolding eq by (simp add: requests_def applyEffects_simps)
qed

theorem no_speech_no_analysis_witness:
  "snd (recognizeSpeech True [OnResult [[Some (js ''  '')]], OnEnd]) = Resolved (Some (js ''  ''))
   \<and> list_all isWhiteSpace (js ''  '')
   \<and> requests (handleRecord JSON_parse True True True MediaStream [OnResult [[Some (js ''  '')]], OnEnd]
        (AiText (js ''{}'')) (js ''sea'') (js ''/si/'')) = []"
proof -
  have a: "snd (recognizeSpeech True [OnResult [[Some (js ''  '')]], OnEnd]) = Resolved (Some (js ''  ''))"
    by (simp add: recognizeSpeech_def)
  have b: "list_all isWhiteSpace (js ''  '')"
    by (simp add: js_def isWhiteSpace_def)
  from no_speech_no_analysis [OF a, of JSON_parse True "AiText (js ''{}'')" "js ''sea''" "js ''/si/''"] a b
  show ?thesis by (simp add: requests_def)
qed

section \<open>Next item discards the feedback\<close>

lemma producedFeedback_simps:
  "producedFeedback [] = []"
  "producedFeedback (e # es) =
     (case e of SetFeedback v \<Rightarrow> (if v = JNull then [] else [v]) | _ \<Rightarrow> []) @ producedFeedback es"
  "producedFeedback (es @ es') = producedFeedback es @ producedFeedback es'"
  by (simp_all add: producedFeedback_def)

lemma produced_analyzePronunciation:
  "length (producedFeedback (analyzePronunciation parse ai outcome w i t)) \<le> Suc 0"
  by (simp add: analyzePronunciation_def analysisFailed_def producedFeedback_simps
      split: ai_outcome.splits option.splits)

lemma produced_handleRecord:
  "length (producedFeedback (handleRecord parse ai md sr media events outcome w i)) \<le> 1"
  by (simp add: handleRecord_def recordingFailed_def recognizeSpeech_def producedFeedback_simps
      produced_analyzePronunciation split: media_outcome.splits promise.splits)

lemma produced_handleRecord_index:
  "length (producedFeedback (handleRecord_index parse ai sr events outcome w i)) \<le> 1"
  by (simp add: handleRecord_index_def recognizeSpeech_def producedFeedback_simps
      produced_analyzePronunciation split: promise.splits)

text \<open>
  C5. After \<^verbatim>\<open>handleNextItem\<close>, from any state, the feedback is \<^verbatim>\<open>null\<close>, the status is
  \<^verbatim>\<open>idle\<close>, the error string is empty and the active word is \<^verbatim>\<open>null\<close>. One run of
  \<^verbatim>\<open>handleRecord\<close> (of either source file) stores a feedback result at most once.
\<close>

theorem next_item_discards_feedback:
  "feedback (pressNext s) = JNull \<and> status (pressNext s) = idle
   \<and> error (pressNext s) = [] \<and> activeWord (pressNext s) = None
   \<and> length (producedFeedback
        (handleRecord parse ai mediaDevices supported media events outcome word ipa)) \<le> 1
   \<and> length (producedFeedback
        (handleRecord_index parse ai supported events outcome word ipa)) \<le> 1"
  using produced_handleRecord [of parse ai mediaDevices supported media events outcome word ipa]
    produced_handleRecord_index [of parse ai supported events outcome word ipa]
  by (simp add: pressNext_state)

section \<open>The message for a caught error\<close>

lemma names_distinct:
  "js ''NotAllowedError'' \<noteq> js ''PermissionDeniedError''"
  "js ''NotFoundError'' \<noteq> js ''NotAllowedError''"
  "js ''NotFoundError'' \<noteq> js ''PermissionDeniedError''"
  "js ''NotReadableError'' \<noteq> js ''NotAllowedError''"
  "js ''NotReadableError'' \<noteq> js ''PermissionDeniedError''"
  "js ''NotReadableError'' \<noteq> js ''NotFoundError''"
  by (simp_all add: js_def)

lemma toLowerCase_append: "toLowerCase (a @ b) = toLowerCase a @ toLowerCase b"
  by (simp add: toLowerCase_def)

lemma lowerUnit_shape: "(\<exists>b. lowerUnit c = [b]) \<or> lowerUnit c = [0x69, 0x0307]"
  by (simp add: lowerUnit_def)

lemma lowerUnit_cases:
  obtains (one) b where "lowerUnit c = [b]" | (two) "lowerUnit c = [0x69, 0x0307]"
  using lowerUnit_shape [of c] by blast

lemma toLowerCase_Cons: "toLowerCase (c # m) = lowerUnit c @ toLowerCase m"
  by (simp add: toLowerCase_def)

lemma prefix_lower:
  assumes "0x0307 \<notin> set w" and "w = [] \<or> last w \<noteq> 0x69" and "prefix w (toLowerCase m)"
  shows "\<exists>x q. m = x @ q \<and> toLowerCase x = w"
  using assms
proof (induction m arbitrary: w)
  case Nil
  then have "w = []" by (simp add: toLowerCase_def)
  then have "[] = [] @ [] \<and> toLowerCase [] = w" by (simp add: toLowerCase_def)
  then show ?case by (intro exI)
next
  case (Cons c m)
  show ?case
  proof (cases w)
    case Nil
    then have "c # m = [] @ (c # m) \<and> toLowerCase [] = w" by (simp add: toLowerCase_def)
    then show ?thesis by (intro exI)
  next
    case w: (Cons a w')
    show ?thesis
    proof (cases c rule: lowerUnit_cases)
      case (one b)
      have "prefix (a # w') (b # toLowerCase m)"
        using Cons.prems(3) unfolding w toLowerCase_Cons one by simp
      then have ab: "a = b" and p: "prefix w' (toLowerCase m)"
        by simp_all
      have 1: "0x0307 \<notin> set w'" using Cons.prems(1) unfolding w by simp
      have 2: "w' = [] \<or> last w' \<noteq> 0x69" using Cons.prems(2) unfolding w by (cases w') simp_all
      from Cons.IH [OF 1 2 p] obtain x q where xq: "m = x @ q" "toLowerCase x = w'"
        by (elim exE conjE)
      have "c # m = (c # x) @ q \<and> toLowerCase (c # x) = w"
        unfolding w toLowerCase_Cons one using xq ab by simp
      then show ?thesis by (intro exI)
    next
      case two
      have "prefix (a # w') (0x69 # 0x0307 # toLowerCase m)"
        using Cons.prems(3) unfolding w toLowerCase_Cons two by simp
      then have a: "a = 0x69" and p: "prefix w' (0x0307 # toLowerCase m)"
        by simp_all
      show ?thesis
      proof (cases w')
        case Nil
        with a Cons.prems(2) show ?thesis unfolding w by simp
      next
        case w': (Cons a' w'')
        with p have "a' = 0x0307" by simp
        with Cons.prems(1) show ?thesis unfolding w w' by simp
      qed
    qed
  qed
qed

lemma includes_lower:
  assumes "0x0307 \<notin> set w" and "w \<noteq> []" and "last w \<noteq> 0x69"
    and "includesStr (toLowerCase m) w"
  shows "\<exists>p x q. m = p @ x @ q \<and> toLowerCase x = w"
  using assms(4)
proof (induction m)
  case Nil
  with assms(2) show ?case by (simp add: toLowerCase_def)
next
  case (Cons c m)
  have pre: "\<exists>p x q. c # m = p @ x @ q \<and> toLowerCase x = w" if h: "prefix w (toLowerCase (c # m))"
  proof -
    have "w = [] \<or> last w \<noteq> 0x69" using assms(3) by simp
    from prefix_lower [OF assms(1) this h]
    obtain x q where "c # m = x @ q" "toLowerCase x = w" by (elim exE conjE)
    then have "c # m = [] @ x @ q \<and> toLowerCase x = w" by simp
    then show ?thesis by (intro exI)
  qed
  have rec: "\<exists>p x q. c # m = p @ x @ q \<and> toLowerCase x = w" if h: "includesStr (toLowerCase m) w"
  proof -
    from Cons.IH [OF h]
    obtain p x q where "m = p @ x @ q" "toLowerCase x = w" by (elim exE conjE)
    then have "c # m = (c # p) @ x @ q \<and> toLowerCase x = w" by simp
    then show ?thesis by (intro exI)
  qed
  have "prefix w (toLowerCase (c # m)) \<or> includesStr (toLowerCase m) w"
  proof (cases c rule: lowerUnit_cases)
    case (one b)
    with Cons.prems show ?thesis
      by (simp add: toLowerCase_Cons)
  next
    case two
    have "\<not> prefix w (0x0307 # toLowerCase m)"
      using assms(1,2) by (cases w) auto
    with two Cons.prems show ?thesis
      by (simp add: toLowerCase_Cons)
  qed
  then show ?case
  proof
    assume "prefix w (toLowerCase (c # m))"
    then show ?thesis by (rule pre)
  next
    assume "includesStr (toLowerCase m) w"
    then show ?thesis by (rule rec)
  qed
qed

lemma includes_api_key:
  "includesStr (toLowerCase m) (js ''api key'')
     \<longleftrightarrow> (\<exists>p x q. m = p @ x @ q \<and> toLowerCase x = js ''api key'')"
proof
  assume "includesStr (toLowerCase m) (js ''api key'')"
  moreover have "0x0307 \<notin> set (js ''api key'')" "js ''api key'' \<noteq> []"
    "last (js ''api key'') \<noteq> 0x69"
    by (simp_all add: js_def)
  ultimately show "\<exists>p x q. m = p @ x @ q \<and> toLowerCase x = js ''api key''"
    by (rule includes_lower [rotated 3])
next
  assume "\<exists>p x q. m = p @ x @ q \<and> toLowerCase x = js ''api key''"
  then obtain p x q where "m = p @ x @ q" "toLowerCase x = js ''api key''"
    by (elim exE conjE)
  then have "toLowerCase m = toLowerCase p @ js ''api key'' @ toLowerCase q"
    by (simp add: toLowerCase_append)
  then show "includesStr (toLowerCase m) (js ''api key'')"
    by (simp only: includesStr_append)
qed

text \<open>
  The lookup in the \<^verbatim>\<open>catch\<close> of \<^verbatim>\<open>handleRecord\<close>. What it receives is what \<^verbatim>\<open>getUserMedia\<close> throws or the
  string \<^verbatim>\<open>recognizeSpeech\<close> rejects with; the error string it sets is a lookup on that value.
  An \<^verbatim>\<open>Error\<close> named \<^verbatim>\<open>NotAllowedError\<close> or \<^verbatim>\<open>PermissionDeniedError\<close> gives the
  permission-denied message, \<^verbatim>\<open>NotFoundError\<close> the no-microphone message, \<^verbatim>\<open>NotReadableError\<close>
  the microphone-in-use message; any other \<^verbatim>\<open>Error\<close> whose message contains a run of code
  units that lower-cases to \<^verbatim>\<open>api key\<close> gives the API-key message, and any other \<^verbatim>\<open>Error\<close>
  (one whose message contains no such run) a message that embeds \<^verbatim>\<open>err.message\<close>; a string
  is shown as it is, and any other value gives the unknown-error message.
\<close>

theorem caught_error_message:
  "handleRecord parse ai True True (MediaThrows err) events outcome word ipa
     = [SetActiveWord (Some word), SetStatus recording, SetError [], SetFeedback JNull,
        GetUserMedia, ConsoleError, SetError (errorMessage err), SetStatus idle]
   \<and> (snd (recognizeSpeech True events) = Rejected reason \<longrightarrow>
        handleRecord parse ai True True MediaStream events outcome word ipa
          = [SetActiveWord (Some word), SetStatus recording, SetError [], SetFeedback JNull,
             GetUserMedia, StopTracks, RecognitionStart, ConsoleError,
             SetError (errorMessage (StringValue reason)), SetStatus idle])
   \<and> errorMessage (ErrorObject (js ''NotAllowedError'') m)
       = js ''Microphone permission denied. Please allow access in your browser settings and try again.''
   \<and> errorMessage (ErrorObject (js ''PermissionDeniedError'') m)
       = js ''Microphone permission denied. Please allow access in your browser settings and try again.''
   \<and> errorMessage (ErrorObject (js ''NotFoundError'') m)
       = js ''No microphone found. Please connect a microphone and try again.''
   \<and> errorMessage (ErrorObject (js ''NotReadableError'') m)
       = js ''Microphone is already in use by another app. Please close it and try again.''
   \<and> (n \<notin> {js ''NotAllowedError'', js ''PermissionDeniedError'', js ''NotFoundError'',
             js ''NotReadableError''} \<longrightarrow>
        toLowerCase x = js ''api key'' \<longrightarrow>
        errorMessage (ErrorObject n (p @ x @ q))
          = js ''AI analysis failed. Please check API key configuration and permissions.'')
   \<and> (n \<notin> {js ''NotAllowedError'', js ''PermissionDeniedError'', js ''NotFoundError'',
             js ''NotReadableError''} \<longrightarrow>
        (\<nexists>p x q. m = p @ x @ q \<and> toLowerCase x = js ''api key'') \<longrightarrow>
        errorMessage (ErrorObject n m) = js ''An error occurred: '' @ m)
   \<and> errorMessage (StringValue str) = str
   \<and> errorMessage OtherValue = js ''An unknown error occurred during recording.''"
proof -
  have a: "handleRecord parse ai True True (MediaThrows err) events outcome word ipa
     = [SetActiveWord (Some word), SetStatus recording, SetError [], SetFeedback JNull,
        GetUserMedia, ConsoleError, SetError (errorMessage err), SetStatus idle]"
    by (simp add: handleRecord_def recordingFailed_def)
  have b: "snd (recognizeSpeech True events) = Rejected reason \<longrightarrow>
        handleRecord parse ai True True MediaStream events outcome word ipa
          = [SetActiveWord (Some word), SetStatus recording, SetError [], SetFeedback JNull,
             GetUserMedia, StopTracks, RecognitionStart, ConsoleError,
             SetError (errorMessage (StringValue reason)), SetStatus idle]"
    by (simp add: handleRecord_def recordingFailed_def recognizeSpeech_def)
  have c: "includesStr (toLowerCase (p @ x @ q)) (js ''api key'')" if "toLowerCase x = js ''api key''"
    using includesStr_append [of "toLowerCase p" "js ''api key''" "toLowerCase q"] that
    by (simp add: toLowerCase_append)
  have d: "\<not> includesStr (toLowerCase m) (js ''api key'')"
    if "\<nexists>p x q. m = p @ x @ q \<and> toLowerCase x = js ''api key''"
    using that by (simp add: includes_api_key)
  show ?thesis
    unfolding a
    using b c d by (simp add: errorMessage_def names_distinct)
qed

theorem caught_error_message_witness:
  "snd (recognizeSpeech True [OnError (js ''no-speech'')]) = Rejected (js ''Speech recognition error: no-speech'')
   \<and> toLowerCase (js ''API Key'') = js ''api key''
   \<and> error (applyEffects (handleRecord JSON_parse True True True (MediaThrows (ErrorObject (js ''Error'') (js ''Invalid API Key.''))) [OnError (js ''no-speech'')] (AiThrows OtherValue) (js ''sea'') (js ''/si/''))
        \<lparr>currentItemIndex = 0, status = idle, activeWord = None, feedback = JNull, error = []\<rparr>)
       = js ''AI analysis failed. Please check API key configuration and permissions.''
   \<and> error (applyEffects (handleRecord JSON_parse True True True MediaStream [OnError (js ''no-speech'')] (AiThrows OtherValue) (js ''sea'') (js ''/si/''))
        \<lparr>currentItemIndex = 0, status = idle, activeWord = None, feedback = JNull, error = []\<rparr>)
       = js ''Speech recognition error: no-speech''"
proof -
  have r: "snd (recognizeSpeech True [OnError (js ''no-speech'')]) = Rejected (js ''Speech recognition error: no-speech'')"
    by (simp add: recognizeSpeech_def js_def)
  have l: "toLowerCase (js ''API Key'') = js ''api key''"
    by (simp add: toLowerCase_def lowerUnit_def js_def)
  have n: "js ''Error'' \<notin> {js ''NotAllowedError'', js ''PermissionDeniedError'', js ''NotFoundError'',
             js ''NotReadableError''}"
    by (simp add: js_def)
  have m: "js ''Invalid API Key.'' = js ''Invalid '' @ js ''API Key'' @ js ''.''"
    by (simp add: js_def)
  from caught_error_message [where parse = JSON_parse and ai = True
      and err = "ErrorObject (js ''Error'') (js ''Invalid API Key.'')"
      and events = "[OnError (js ''no-speech'')]" and outcome = "AiThrows OtherValue"
      and word = "js ''sea''" and ipa = "js ''/si/''"
      and reason = "js ''Speech recognition error: no-speech''"
      and n = "js ''Error''" and x = "js ''API Key''" and p = "js ''Invalid ''" and q = "js ''.''"]
    r l n m
  show ?thesis
    by (simp add: applyEffects_simps)
qed

text \<open>
  An error of the analysis does not reach that lookup: whatever the request throws,
  \<^verbatim>\<open>analyzePronunciation\<close> catches it itself and sets its own message.
\<close>

lemma analysis_error_swallowed:
  assumes "snd (recognizeSpeech True events) = Resolved (Some t)" and "trim t \<noteq> []"
  shows "error (applyEffects
            (handleRecord parse True True True MediaStream events (AiThrows err) word ipa) s)
         = js ''Couldn'' @ [0x27] @ js ''t get feedback from AI. Please try again.''"
proof -
  have "t \<noteq> []" using assms(2) by (auto simp: trim_def)
  with assms(2) have n: "\<not> noSpeech (Some t)" by (simp add: noSpeech_def)
  have p: "parsedResponse parse (AiThrows err) = None" by (simp add: parsedResponse_def)
  have f: "fst (recognizeSpeech True events) = [RecognitionStart]"
    by (simp add: recognizeSpeech_def)
  show ?thesis
    by (simp add: handleRecord_def assms(1) n f analyze_failed [OF TrueI p] analysisFailed_def
        applyEffects_simps)
qed

text \<open>
  C4. The claim gives the lookup for every error caught during recording or analysis, and
  the \<^verbatim>\<open>catch\<close> of \<^verbatim>\<open>handleRecord\<close> is written for both (its log line says so, and the
  comment on its default branch names API errors). On an error of the analysis the code
  does otherwise. With the microphone and the recognizer working and the transcript
  \<^verbatim>\<open>she\<close>, a request that throws an \<^verbatim>\<open>Error\<close> with the message
  \<^verbatim>\<open>API key not valid. Please pass a valid API key.\<close> leaves the could-not-get-feedback
  message, where the lookup gives that error the API-key message.
\<close>

theorem analysis_error_bypasses_lookup:
  "error (applyEffects
      (handleRecord JSON_parse True True True MediaStream [OnResult [[Some (js ''she'')]], OnEnd]
         (AiThrows (ErrorObject (js ''Error'')
            (js ''API key not valid. Please pass a valid API key.'')))
         (js ''sea'') (js ''/si/''))
      \<lparr>currentItemIndex = 0, status = idle, activeWord = None, feedback = JNull, error = []\<rparr>)
     = js ''Couldn'' @ [0x27] @ js ''t get feedback from AI. Please try again.''
   \<and> errorMessage (ErrorObject (js ''Error'')
        (js ''API key not valid. Please pass a valid API key.''))
     = js ''AI analysis failed. Please check API key configuration and permissions.''
   \<and> js ''Couldn'' @ [0x27] @ js ''t get feedback from AI. Please try again.''
     \<noteq> js ''AI analysis failed. Please check API key configuration and permissions.''"
proof -
  have r: "snd (recognizeSpeech True [OnResult [[Some (js ''she'')]], OnEnd])
      = Resolved (Some (js ''she''))"
    by (simp add: recognizeSpeech_def)
  have t: "trim (js ''she'') \<noteq> []"
    by (simp add: trim_def js_def isWhiteSpace_def)
  have n: "js ''Error'' \<notin> {js ''NotAllowedError'', js ''PermissionDeniedError'',
      js ''NotFoundError'', js ''NotReadableError''}"
    by (simp add: js_def)
  have l: "toLowerCase (js ''API key'') = js ''api key''"
    by (simp add: toLowerCase_def lowerUnit_def js_def)
  have m: "js ''API key not valid. Please pass a valid API key.''
      = [] @ js ''API key'' @ js '' not valid. Please pass a valid API key.''"
    by (simp add: js_def)
  have "includesStr (toLowerCase (js ''API key not valid. Please pass a valid API key.''))
      (js ''api key'')"
    unfolding includes_api_key using l m by (intro exI conjI)
  with n have e: "errorMessage (ErrorObject (js ''Error'')
        (js ''API key not valid. Please pass a valid API key.''))
     = js ''AI analysis failed. Please check API key configuration and permissions.''"
    by (simp add: errorMessage_def)
  have d: "js ''Couldn'' @ [0x27] @ js ''t get feedback from AI. Please try again.''
     \<noteq> js ''AI analysis failed. Please check API key configuration and permissions.''"
    by (simp add: js_def)
  from analysis_error_swallowed [OF r t] e d show ?thesis by simp
qed

section \<open>The backend handler\<close>

lemma firstTranscripts_hd:
  "list_all (\<lambda>r. r \<noteq> []) results \<Longrightarrow> firstTranscripts results = Some (map hd results)"
  by (induction results) (auto split: list.splits)

lemma firstTranscripts_None:
  "\<not> list_all (\<lambda>r. r \<noteq> []) results \<Longrightarrow> firstTranscripts results = None"
  by (induction results) (auto split: list.splits)

text \<open>
  C10, as the code has it. A request whose method is not \<^verbatim>\<open>POST\<close> is answered 405 and the
  speech-transcription service is not called. For a \<^verbatim>\<open>POST\<close> whose body can be read: when
  \<^verbatim>\<open>req.body.audio\<close> is falsy (a missing property, \<^verbatim>\<open>null\<close>, \<^verbatim>\<open>false\<close>, 0 or the empty
  string) the answer is 400 and the service is not called; when it is truthy the service is
  called once, first of all, with the audio, and when the call returns results that each
  have an alternative the answer is 200 with the first alternatives' transcripts joined by
  newlines as \<^verbatim>\<open>transcription\<close>, and when the call throws, or a result has no alternative,
  the answer is 500.
\<close>

theorem handler_responses:
  "(req_method req \<noteq> js ''POST'' \<longrightarrow>
      handler req outcome = [Respond 405 (Send (js ''Method Not Allowed''))])
   \<and> (req_method req = js ''POST'' \<longrightarrow> getProperty (req_body req) (js ''audio'') = Some audioBytes \<longrightarrow>
        \<not> truthy audioBytes \<longrightarrow>
        handler req outcome = [Respond 400 (Send (js ''Bad Request: Missing audio data.''))])
   \<and> (req_method req = js ''POST'' \<longrightarrow> getProperty (req_body req) (js ''audio'') = Some audioBytes \<longrightarrow>
        truthy audioBytes \<longrightarrow>
          serviceCalls (handler req outcome) = 1
          \<and> hd (handler req outcome) = Recognize (the audioBytes) config
          \<and> (\<forall>results. outcome = RecognizeReturns results \<longrightarrow>
                list_all (\<lambda>r. r \<noteq> []) results \<longrightarrow>
                responses (handler req outcome)
                  = [(200, Json (JObj [(js ''transcription'',
                       JStr (join [0x0A] (map hd results)))]))])
          \<and> (outcome = RecognizeThrows
               \<or> (\<exists>results. outcome = RecognizeReturns results
                     \<and> \<not> list_all (\<lambda>r. r \<noteq> []) results) \<longrightarrow>
              responses (handler req outcome)
                = [(500, Send (js ''Internal Server Error''))]))"
  by (auto simp: handler_def internalError_def serviceCalls_def responses_def
      firstTranscripts_hd firstTranscripts_None
      split: recognize_outcome.splits option.splits)

theorem handler_responses_witness:
  "getProperty (Some (JObj [(js ''audio'', JStr (js ''GkXfo59ChoEB''))])) (js ''audio'')
     = Some (Some (JStr (js ''GkXfo59ChoEB'')))
   \<and> truthy (Some (JStr (js ''GkXfo59ChoEB'')))
   \<and> list_all (\<lambda>r. r \<noteq> []) [[js ''she sells'', js ''she sell''], [js ''seashells'']]
   \<and> serviceCalls (handler \<lparr>req_method = js ''POST'',
        req_body = Some (JObj [(js ''audio'', JStr (js ''GkXfo59ChoEB''))])\<rparr>
        (RecognizeReturns [[js ''she sells'', js ''she sell''], [js ''seashells'']])) = 1
   \<and> responses (handler \<lparr>req_method = js ''POST'',
        req_body = Some (JObj [(js ''audio'', JStr (js ''GkXfo59ChoEB''))])\<rparr>
        (RecognizeReturns [[js ''she sells'', js ''she sell''], [js ''seashells'']]))
       = [(200, Json (JObj [(js ''transcription'',
            JStr (js ''she sells'' @ [0x0A] @ js ''seashells''))]))]"
proof -
  have g: "getProperty (req_body \<lparr>req_method = js ''POST'',
        req_body = Some (JObj [(js ''audio'', JStr (js ''GkXfo59ChoEB''))])\<rparr>) (js ''audio'')
     = Some (Some (JStr (js ''GkXfo59ChoEB'')))"
    by simp
  have t: "truthy (Some (JStr (js ''GkXfo59ChoEB'')))"
    by (simp add: js_def)
  have l: "list_all (\<lambda>r. r \<noteq> []) [[js ''she sells'', js ''she sell''], [js ''seashells'']]"
    by (simp add: js_def)
  from handler_responses [where req = "\<lparr>req_method = js ''POST'',
        req_body = Some (JObj [(js ''audio'', JStr (js ''GkXfo59ChoEB''))])\<rparr>"
      and outcome = "RecognizeReturns [[js ''she sells'', js ''she sell''], [js ''seashells'']]"
      and audioBytes = "Some (JStr (js ''GkXfo59ChoEB''))"] g t l
  show ?thesis by simp
qed

text \<open>
  C10 as stated fails for a \<^verbatim>\<open>POST\<close> whose body has an \<^verbatim>\<open>audio\<close> field holding the empty
  string: the guard tests the value, not the presence of the field, so the answer is 400 and
  the service is not called.
\<close>

theorem handler_counterexample:
  "req_method \<lparr>req_method = js ''POST'', req_body = Some (JObj [(js ''audio'', JStr [])])\<rparr>
     = js ''POST''
   \<and> map_of [(js ''audio'', JStr [])] (js ''audio'') = Some (JStr [])
   \<and> responses (handler \<lparr>req_method = js ''POST'',
        req_body = Some (JObj [(js ''audio'', JStr [])])\<rparr> (RecognizeReturns [[js ''she'']]))
       = [(400, Send (js ''Bad Request: Missing audio data.''))]
   \<and> serviceCalls (handler \<lparr>req_method = js ''POST'',
        req_body = Some (JObj [(js ''audio'', JStr [])])\<rparr> (RecognizeReturns [[js ''she'']]))
       = 0"
  by (simp add: handler_def serviceCalls_def responses_def)

section \<open>The recognition adapter settles at most once\<close>

lemma deliver_settled: "p \<noteq> Pending \<Longrightarrow> deliver ev p = p"
  by (cases p) auto

lemma fold_deliver_settled: "p \<noteq> Pending \<Longrightarrow> fold deliver events p = p"
  by (induction events) (auto simp: deliver_settled)

lemma deliver_not_settles: "\<not> settles ev \<Longrightarrow> deliver ev Pending = Pending"
  by (cases ev rule: settles.cases) auto

lemma deliver_settles: "settles ev \<Longrightarrow> deliver ev Pending \<noteq> Pending"
  by (cases ev rule: settles.cases) auto

lemma fold_deliver_find:
  "fold deliver events Pending
     = (case find settles events of None \<Rightarrow> Pending | Some ev \<Rightarrow> deliver ev Pending)"
proof (induction events)
  case Nil
  show ?case by simp
next
  case (Cons ev events)
  show ?case
  proof (cases "settles ev")
    case True
    then show ?thesis by (simp add: fold_deliver_settled deliver_settles)
  next
    case False
    then show ?thesis by (simp add: deliver_not_settles Cons.IH)
  qed
qed

text \<open>
  C2, as the code has it. Without speech recognition in the browser the promise is rejected
  with the unsupported-browser message and nothing is started. Otherwise recognition is
  started, and the promise is settled by the first event that is an error event or a result
  event with a first alternative: resolved with \<^verbatim>\<open>results[0][0].transcript\<close>, or rejected
  with \<^verbatim>\<open>Speech recognition error: \<close> followed by the error code. When the platform
  delivers no such event the promise stays pending, and a settled promise comes from such
  an event only. In \<^verbatim>\<open>handleRecord\<close> of App.tsx the microphone is requested
  (\<^verbatim>\<open>getUserMedia\<close>) before recognition is started.
\<close>

theorem recognizeSpeech_settles:
  "recognizeSpeech False events
     = ([], Rejected (js ''Speech recognition not supported in this browser.''))
   \<and> fst (recognizeSpeech True events) = [RecognitionStart]
   \<and> (find settles events = None \<longrightarrow> snd (recognizeSpeech True events) = Pending)
   \<and> (find settles events = Some (OnResult ((transcript # alternatives) # results)) \<longrightarrow>
        snd (recognizeSpeech True events) = Resolved transcript)
   \<and> (find settles events = Some (OnError code) \<longrightarrow>
        snd (recognizeSpeech True events) = Rejected (js ''Speech recognition error: '' @ code))
   \<and> (snd (recognizeSpeech True events) \<noteq> Pending \<longrightarrow>
        (\<exists>t a r. find settles events = Some (OnResult ((t # a) # r)))
        \<or> (\<exists>c. find settles events = Some (OnError c)))
   \<and> take 7 (handleRecord parse ai True True MediaStream events outcome word ipa)
       = [SetActiveWord (Some word), SetStatus recording, SetError [], SetFeedback JNull,
          GetUserMedia, StopTracks, RecognitionStart]"
proof -
  have ex: "(\<exists>t a r. ev = OnResult ((t # a) # r)) \<or> (\<exists>c. ev = OnError c)" if "settles ev" for ev
    using that by (cases ev rule: settles.cases) auto
  have "find settles events = Some ev \<Longrightarrow> settles ev" for ev
    by (auto simp: find_Some_iff)
  with ex have f: "find settles events = None
      \<or> (\<exists>t a r. find settles events = Some (OnResult ((t # a) # r)))
      \<or> (\<exists>c. find settles events = Some (OnError c))"
    by (cases "find settles events") auto
  show ?thesis
    using f
    by (auto simp: recognizeSpeech_def fold_deliver_find handleRecord_def)
qed

theorem recognizeSpeech_settles_witness:
  "find settles [OnNoMatch, OnResult [[Some (js ''she''), Some (js ''sea'')]], OnEnd]
     = Some (OnResult ((Some (js ''she'') # [Some (js ''sea'')]) # []))
   \<and> snd (recognizeSpeech True [OnNoMatch, OnResult [[Some (js ''she''), Some (js ''sea'')]], OnEnd])
       = Resolved (Some (js ''she''))
   \<and> find settles [OnError (js ''no-speech''), OnEnd] = Some (OnError (js ''no-speech''))"
proof -
  have a: "find settles [OnNoMatch, OnResult [[Some (js ''she''), Some (js ''sea'')]], OnEnd]
     = Some (OnResult ((Some (js ''she'') # [Some (js ''sea'')]) # []))"
    by simp
  from recognizeSpeech_settles [where events = "[OnNoMatch, OnResult [[Some (js ''she''), Some (js ''sea'')]], OnEnd]"
      and transcript = "Some (js ''she'')" and alternatives = "[Some (js ''sea'')]" and results = "[]"] a
  show ?thesis by simp
qed

text \<open>
  C2 as stated fails when recognition ends with neither a result nor an error (the handler
  of the end event does nothing): the promise is neither resolved nor rejected.
\<close>

theorem recognizeSpeech_counterexample:
  "snd (recognizeSpeech True [OnNoMatch, OnEnd]) = Pending"
  by (simp add: recognizeSpeech_def)

section \<open>The status \<^verbatim>\<open>result\<close> follows a stored feedback\<close>

lemma storedBeforeResult_append:
  "storedBeforeResult P prev (a @ b)
     \<longleftrightarrow> storedBeforeResult P prev a
         \<and> storedBeforeResult P (if a = [] then prev else Some (last a)) b"
  by (induction a arbitrary: prev) auto

lemma stored_analyzePronunciation:
  "storedBeforeResult (\<lambda>v. parsedResponse parse outcome = Some v) prev
     (analyzePronunciation parse ai outcome w i t)"
  by (simp add: analyzePronunciation_def analysisFailed_def parsedResponse_def
      split: ai_outcome.splits option.splits)

lemma stored_handleRecord:
  "storedBeforeResult (\<lambda>v. parsedResponse parse outcome = Some v) None
     (handleRecord parse ai md sr media events outcome w i)"
  by (simp add: handleRecord_def recordingFailed_def recognizeSpeech_def
      storedBeforeResult_append stored_analyzePronunciation
      split: media_outcome.splits promise.splits)

lemma stored_handleRecord_index:
  "storedBeforeResult (\<lambda>v. parsedResponse parse outcome = Some v) None
     (handleRecord_index parse ai sr events outcome w i)"
  by (simp add: handleRecord_index_def recognizeSpeech_def
      storedBeforeResult_append stored_analyzePronunciation
      split: promise.splits)

lemma final_analyzePronunciation:
  "status (applyEffects (analyzePronunciation parse ai outcome w i t) s) = result \<longrightarrow>
     parsedResponse parse outcome
       = Some (feedback (applyEffects (analyzePronunciation parse ai outcome w i t) s))"
  by (simp add: analyzePronunciation_def analysisFailed_def parsedResponse_def applyEffects_simps
      split: ai_outcome.splits option.splits)

lemma final_handleRecord:
  "status (applyEffects (handleRecord parse ai md sr media events outcome w i) s) = result \<longrightarrow>
     parsedResponse parse outcome
       = Some (feedback (applyEffects (handleRecord parse ai md sr media events outcome w i) s))"
  using final_analyzePronunciation
  by (simp add: handleRecord_def recordingFailed_def recognizeSpeech_def applyEffects_simps
      split: media_outcome.splits promise.splits)

lemma final_handleRecord_index:
  "status (applyEffects (handleRecord_index parse ai sr events outcome w i) s) = result \<longrightarrow>
     parsedResponse parse outcome
       = Some (feedback (applyEffects (handleRecord_index parse ai sr events outcome w i) s))"
  using final_analyzePronunciation
  by (simp add: handleRecord_index_def recognizeSpeech_def applyEffects_simps
      split: promise.splits)

lemma null_feedback_iff:
  assumes "status x = result \<longrightarrow> parsedResponse parse outcome = Some (feedback x)"
  shows "status x = result \<longrightarrow>
           (feedback x = JNull \<longleftrightarrow> parsedResponse parse outcome = Some JNull)"
  using assms by auto

text \<open>
  C7, as the code has it. A status is one of \<^verbatim>\<open>idle\<close>, \<^verbatim>\<open>recording\<close>, \<^verbatim>\<open>analyzing\<close> and
  \<^verbatim>\<open>result\<close>. In every operation a \<^verbatim>\<open>setStatus('result')\<close> comes immediately after the
  \<^verbatim>\<open>setFeedback\<close> of the value \<^verbatim>\<open>JSON.parse\<close> returned for the response of the service
  (after the fence is stripped), and an operation that ends with the status \<^verbatim>\<open>result\<close>
  ends with that value as the feedback; \<^verbatim>\<open>handleNextItem\<close> never sets \<^verbatim>\<open>result\<close>. The
  value is stored as it is parsed: when an operation ends with the status \<^verbatim>\<open>result\<close>, the
  feedback is \<^verbatim>\<open>null\<close> exactly when \<^verbatim>\<open>JSON.parse\<close> returned \<^verbatim>\<open>null\<close>.
\<close>

theorem result_only_after_stored_feedback:
  "(st = idle \<or> st = recording \<or> st = analyzing \<or> st = result)
   \<and> storedBeforeResult (\<lambda>v. parsedResponse parse outcome = Some v) None
        (analyzePronunciation parse ai outcome word ipa transcript)
   \<and> storedBeforeResult (\<lambda>v. parsedResponse parse outcome = Some v) None
        (handleRecord parse ai mediaDevices supported media events outcome word ipa)
   \<and> storedBeforeResult (\<lambda>v. parsedResponse parse outcome = Some v) None
        (handleRecord_index parse ai supported events outcome word ipa)
   \<and> storedBeforeResult (\<lambda>v. False) None (handleNextItem s)
   \<and> (status (applyEffects (analyzePronunciation parse ai outcome word ipa transcript) s) = result
        \<longrightarrow> parsedResponse parse outcome
            = Some (feedback (applyEffects
                (analyzePronunciation parse ai outcome word ipa transcript) s)))
   \<and> (status (applyEffects
          (handleRecord parse ai mediaDevices supported media events outcome word ipa) s) = result
        \<longrightarrow> parsedResponse parse outcome
            = Some (feedback (applyEffects
                (handleRecord parse ai mediaDevices supported media events outcome word ipa) s)))
   \<and> (status (applyEffects
          (handleRecord_index parse ai supported events outcome word ipa) s) = result
        \<longrightarrow> parsedResponse parse outcome
            = Some (feedback (applyEffects
                (handleRecord_index parse ai supported events outcome word ipa) s)))
   \<and> (status (applyEffects (analyzePronunciation parse ai outcome word ipa transcript) s) = result
        \<longrightarrow> (feedback (applyEffects
                (analyzePronunciation parse ai outcome word ipa transcript) s) = JNull
             \<longleftrightarrow> parsedResponse parse outcome = Some JNull))
   \<and> (status (applyEffects
          (handleRecord parse ai mediaDevices supported media events outcome word ipa) s) = result
        \<longrightarrow> (feedback (applyEffects
                (handleRecord parse ai mediaDevices supported media events outcome word ipa) s)
               = JNull
             \<longleftrightarrow> parsedResponse parse outcome = Some JNull))
   \<and> (status (applyEffects
          (handleRecord_index parse ai supported events outcome word ipa) s) = result
        \<longrightarrow> (feedback (applyEffects
                (handleRecord_index parse ai supported events outcome word ipa) s) = JNull
             \<longleftrightarrow> parsedResponse parse outcome = Some JNull))
   \<and> status (pressNext s) = idle"
  apply (intro conjI)
             apply (cases st; simp)
            apply (rule stored_analyzePronunciation)
           apply (rule stored_handleRecord)
          apply (rule stored_handleRecord_index)
         apply (simp add: handleNextItem_def)
        apply (rule final_analyzePronunciation)
       apply (rule final_handleRecord)
      apply (rule final_handleRecord_index)
     apply (rule null_feedback_iff, rule final_analyzePronunciation)
    apply (rule null_feedback_iff, rule final_handleRecord)
   apply (rule null_feedback_iff, rule final_handleRecord_index)
  apply (simp add: pressNext_state)
  done

text \<open>
  C7 as stated fails when the service returns the text \<^verbatim>\<open>null\<close>: it parses to \<^verbatim>\<open>null\<close>,
  which is stored, and the status becomes \<^verbatim>\<open>result\<close> with a \<^verbatim>\<open>null\<close> feedback.
\<close>

theorem result_without_feedback_counterexample:
  "analyzePronunciation JSON_parse True (AiText (js ''null'')) (js ''sea'') (js ''/si/'') (js ''she'')
     = [SetStatus analyzing, SetError [], SetFeedback JNull,
        GenerateContent (js ''gemini-pro'') (js ''application/json'')
          (buildPrompt (js ''sea'') (js ''/si/'') (js ''she'')),
        SetFeedback JNull, SetStatus result]
   \<and> status (applyEffects
        (analyzePronunciation JSON_parse True (AiText (js ''null'')) (js ''sea'') (js ''/si/'') (js ''she''))
        \<lparr>currentItemIndex = 0, status = recording, activeWord = Some (js ''sea''),
          feedback = JNull, error = []\<rparr>) = result
   \<and> feedback (applyEffects
        (analyzePronunciation JSON_parse True (AiText (js ''null'')) (js ''sea'') (js ''/si/'') (js ''she''))
        \<lparr>currentItemIndex = 0, status = recording, activeWord = Some (js ''sea''),
          feedback = JNull, error = []\<rparr>) = JNull"
proof -
  have "parsedResponse JSON_parse (AiText (js ''null'')) = Some JNull"
    by code_simp
  from analyze_ok [OF TrueI this] show ?thesis
    by (simp add: applyEffects_simps)
qed

section \<open>The code fence\<close>

lemma not_ws_backtick: "\<not> isWhiteSpace 0x60"
  by (simp add: isWhiteSpace_def)

lemma ws_newline: "isWhiteSpace 0x0A"
  by (simp add: isWhiteSpace_def)

lemma fence_ne: "fence \<noteq> []"
  by (simp add: fence_def)

lemma closes_Nil: "\<not> closes []"
  by (simp add: closes_def fence_def)

lemma final_eq:
  "lit fence s (\<lambda>s8. if s8 = [] then Some g else None) = (if s = fence then Some g else None)"
  by (auto simp: lit_def fence_def prefix_def)

lemma wsStar_final:
  "wsStar s (\<lambda>s7. lit fence s7 (\<lambda>s8. if s8 = [] then Some g else None))
     = (if closes s then Some g else None)"
proof (induction s)
  case Nil
  have "fence \<noteq> []" by (simp add: fence_def)
  then show ?case by (simp add: final_eq closes_Nil)
next
  case (Cons c s)
  show ?case
  proof (cases "isWhiteSpace c")
    case True
    then have "c # s \<noteq> fence" using not_ws_backtick by (auto simp: fence_def)
    with True Cons show ?thesis by (simp add: final_eq closes_def orElse_def)
  next
    case False
    then show ?thesis by (simp add: final_eq closes_def)
  qed
qed

lemma closing_eq:
  "optional (lit [0x0A]) s
     (\<lambda>s6. wsStar s6 (\<lambda>s7. lit fence s7 (\<lambda>s8. if s8 = [] then Some g else None)))
     = (if closes s then Some g else None)"
  unfolding wsStar_final
proof (cases s)
  case Nil
  then show "optional (lit [0x0A]) s (\<lambda>s6. if closes s6 then Some g else None)
      = (if closes s then Some g else None)"
    by (simp add: optional_def lit_def orElse_def closes_Nil)
next
  case (Cons c s')
  show "optional (lit [0x0A]) s (\<lambda>s6. if closes s6 then Some g else None)
      = (if closes s then Some g else None)"
  proof (cases "c = 0x0A")
    case True
    with Cons have "closes s = closes s'" by (simp add: closes_def ws_newline)
    with True Cons show ?thesis
      by (simp add: optional_def lit_def orElse_def)
  next
    case False
    with Cons show ?thesis
      by (simp add: optional_def lit_def orElse_def)
  qed
qed

lemma anyLazy_capture:
  "anyLazy acc s (\<lambda>g s5. if closes s5 then Some g else None) = capture acc s"
proof (induction s arbitrary: acc)
  case Nil
  show ?case by (simp add: closes_Nil)
next
  case (Cons c s)
  then show ?case by (simp add: orElse_def)
qed

lemma capture_None_iff: "capture acc s = None \<longleftrightarrow> \<not> (\<exists>u v. s = u @ v \<and> closes v)"
proof (induction s arbitrary: acc)
  case Nil
  show ?case by (simp add: closes_Nil)
next
  case (Cons c s)
  show ?case
  proof (cases "closes (c # s)")
    case True
    then have "c # s = [] @ (c # s) \<and> closes (c # s)" by simp
    then have "\<exists>u v. c # s = u @ v \<and> closes v" by blast
    with True show ?thesis by simp
  next
    case False
    have "(\<exists>u v. c # s = u @ v \<and> closes v) \<longleftrightarrow> (\<exists>u v. s = u @ v \<and> closes v)"
    proof
      assume "\<exists>u v. c # s = u @ v \<and> closes v"
      then obtain u v where uv: "c # s = u @ v" "closes v" by blast
      with False have "u \<noteq> []" by auto
      with uv show "\<exists>u v. s = u @ v \<and> closes v"
        by (cases u) auto
    next
      assume "\<exists>u v. s = u @ v \<and> closes v"
      then obtain u v where "s = u @ v" "closes v" by blast
      then have "c # s = (c # u) @ v \<and> closes v" by simp
      then show "\<exists>u v. c # s = u @ v \<and> closes v" by blast
    qed
    with False Cons.IH [of "c # acc"] show ?thesis by simp
  qed
qed

lemma capture_None_acc: "capture acc s = None \<longleftrightarrow> capture acc' s = None"
  by (simp add: capture_None_iff)

lemma capture_ws:
  assumes "isWhiteSpace c"
  shows "capture acc (c # s) = None \<longleftrightarrow> capture acc' s = None"
proof -
  have "closes (c # s) = closes s" using assms by (simp add: closes_def)
  then show ?thesis
    using capture_None_acc [of "c # acc" s acc'] capture_None_iff [of acc' s]
    by (auto intro: exI [of _ "[]"])
qed

lemma capture_dropWhile:
  "capture acc (dropWhile isWhiteSpace s) = None \<longleftrightarrow> capture acc s = None"
  by (induction s) (auto simp: capture_ws [where acc' = acc] simp del: capture.simps)

lemma capture_skip:
  "\<not> isWhiteSpace c \<Longrightarrow> c \<noteq> 0x60 \<Longrightarrow> capture acc (c # s) = capture (c # acc) s"
  by (simp add: closes_def fence_def)


lemma leading_ws:
  "wsStar s (\<lambda>s3. optional (lit [0x0A]) s3 (capture []))
     = capture [] (dropWhile isWhiteSpace s)"
proof (induction s)
  case Nil
  show ?case by (simp add: optional_def lit_def orElse_def)
next
  case (Cons c s)
  show ?case
  proof (cases "isWhiteSpace c")
    case False
    then have "c \<noteq> 0x0A" using ws_newline by auto
    with False show ?thesis by (simp add: optional_def lit_def orElse_def del: capture.simps)
  next
    case True
    show ?thesis
    proof (cases "capture [] (dropWhile isWhiteSpace s)")
      case (Some g)
      with True Cons show ?thesis by (simp add: orElse_def del: capture.simps)
    next
      case None
      then have 1: "capture [] s = None" by (simp add: capture_dropWhile)
      then have 2: "capture [] (c # s) = None" using True capture_ws [of c "[]" s "[]"] by simp
      have "optional (lit [0x0A]) (c # s) (capture []) = None"
        using 1 2 by (simp add: optional_def lit_def orElse_def del: capture.simps)
      with True Cons None show ?thesis by (simp add: orElse_def del: capture.simps)
    qed
  qed
qed

lemma json_letters:
  "js ''json'' = [0x6A, 0x73, 0x6F, 0x6E]"
  by (simp add: js_def)

lemma tag_eq:
  "optional (lit (js ''json'')) s (\<lambda>s2. capture [] (dropWhile isWhiteSpace s2))
     = capture [] (dropWhile isWhiteSpace (if prefix (js ''json'') s then drop 4 s else s))"
proof (cases "prefix (js ''json'') s")
  case False
  then show ?thesis by (simp add: optional_def lit_def orElse_def)
next
  case True
  then obtain r where s: "s = [0x6A, 0x73, 0x6F, 0x6E] @ r"
    by (auto simp: prefix_def json_letters)
  show ?thesis
  proof (cases "capture [] (dropWhile isWhiteSpace r)")
    case (Some g)
    with True s show ?thesis by (simp add: optional_def lit_def orElse_def json_letters)
  next
    case None
    then have "capture [0x6E, 0x6F, 0x73, 0x6A] r = None"
      using capture_dropWhile [of "[]" r] capture_None_acc [of "[]" r] by simp
    then have "capture [] s = None"
      by (simp add: s capture_skip isWhiteSpace_def del: capture.simps)
    moreover have "dropWhile isWhiteSpace s = s"
      by (simp add: s isWhiteSpace_def)
    ultimately show ?thesis
      using True None s by (simp add: optional_def lit_def orElse_def json_letters del: capture.simps)
  qed
qed

lemma fenceRegex_fenced: "fenceRegex s = fenced s"
proof -
  have "fenceRegex s =
     lit fence s (\<lambda>s1.
     optional (lit (js ''json'')) s1 (\<lambda>s2.
     wsStar s2 (\<lambda>s3.
     optional (lit [0x0A]) s3 (capture []))))"
    unfolding fenceRegex_def closing_eq anyLazy_capture ..
  also have "\<dots> = lit fence s (\<lambda>s1.
     capture [] (dropWhile isWhiteSpace (if prefix (js ''json'') s1 then drop 4 s1 else s1)))"
    unfolding leading_ws tag_eq ..
  also have "\<dots> = fenced s"
  proof -
    have "length fence = 3" by (simp add: fence_def)
    then show ?thesis by (simp add: lit_def fenced_def)
  qed
  finally show ?thesis .
qed


lemma closes_suffix: "closes v \<Longrightarrow> suffix fence v"
proof -
  assume "closes v"
  then have "v = takeWhile isWhiteSpace v @ fence"
    using takeWhile_dropWhile_id [of isWhiteSpace v] by (simp add: closes_def)
  then show ?thesis by (metis suffixI)
qed

lemma capture_suffix: "capture acc t = Some g \<Longrightarrow> suffix fence t"
proof -
  assume "capture acc t = Some g"
  then have "capture acc t \<noteq> None" by simp
  then obtain u v where "t = u @ v" "closes v"
    unfolding capture_None_iff by blast
  then show ?thesis
    using closes_suffix [of v] by (auto simp: suffix_def)
qed

lemma fenced_None:
  assumes "\<not> prefix fence s \<or> \<not> suffix fence s"
  shows "fenced s = None"
proof (rule ccontr)
  assume "fenced s \<noteq> None"
  then obtain g where g: "fenced s = Some g" by auto
  then have p: "prefix fence s" by (auto simp: fenced_def split: if_splits)
  from g obtain k where "capture [] (dropWhile isWhiteSpace (drop k s)) = Some g"
    by (auto simp: fenced_def split: if_splits)
  then have "suffix fence (dropWhile isWhiteSpace (drop k s))" by (rule capture_suffix)
  then have "suffix fence s"
    using suffix_dropWhile suffix_drop suffix_order.trans by metis
  with p assms show False by simp
qed

lemma closes_capture: "closes t \<Longrightarrow> capture acc t = Some (rev acc)"
  by (cases t) (auto simp: closes_Nil)

lemma capture_inner:
  assumes "list_all isWhiteSpace ws2" and "inner = [] \<or> \<not> isWhiteSpace (last inner)"
  shows "capture acc (inner @ ws2 @ fence) = Some (rev acc @ inner)"
  using assms(2)
proof (induction inner arbitrary: acc)
  case Nil
  have "dropWhile isWhiteSpace (ws2 @ fence) = fence"
    using assms(1) not_ws_backtick
    by (simp add: dropWhile_append2 list_all_iff fence_def)
  then have "closes (ws2 @ fence)" by (simp add: closes_def)
  then show ?case using closes_capture by simp
next
  case (Cons c inner)
  then have l: "\<not> isWhiteSpace (last (c # inner))" by simp
  have m: "last (c # inner) \<in> set (c # inner)" by (rule last_in_set) simp
  have d: "dropWhile isWhiteSpace ((c # inner) @ ws2 @ fence)
      = dropWhile isWhiteSpace (c # inner) @ ws2 @ fence"
    using m l by (rule dropWhile_append1)
  have "dropWhile isWhiteSpace (c # inner) \<noteq> []"
    using l m by (simp only: dropWhile_eq_Nil_conv) blast
  then have "length (dropWhile isWhiteSpace ((c # inner) @ ws2 @ fence)) > length fence"
    unfolding d by (cases "dropWhile isWhiteSpace (c # inner)") auto
  then have n: "\<not> closes ((c # inner) @ ws2 @ fence)"
    by (auto simp: closes_def)
  have i: "inner = [] \<or> \<not> isWhiteSpace (last inner)"
    using l by (cases inner) auto
  from n Cons.IH [OF i, of "c # acc"] show ?case by simp
qed

lemma dropWhile_id: "xs \<noteq> [] \<Longrightarrow> \<not> P (hd xs) \<Longrightarrow> dropWhile P xs = xs"
  by (cases xs) auto

lemma trim_id:
  assumes "inner \<noteq> []" "\<not> isWhiteSpace (hd inner)" "\<not> isWhiteSpace (last inner)"
  shows "trim inner = inner"
proof -
  have 1: "dropWhile isWhiteSpace inner = inner"
    using assms(1,2) by (rule dropWhile_id)
  have "hd (rev inner) = last inner" using assms(1) by (simp add: hd_rev)
  then have 2: "dropWhile isWhiteSpace (rev inner) = rev inner"
    using assms(1,3) by (intro dropWhile_id) auto
  show ?thesis by (simp add: trim_def 1 2)
qed

lemma not_tagged:
  assumes "list_all isWhiteSpace ws1" "list_all isWhiteSpace ws2"
    and "ws1 \<noteq> [] \<or> \<not> prefix (js ''json'') inner"
  shows "\<not> prefix (js ''json'') (ws1 @ inner @ ws2 @ fence)"
proof (cases ws1)
  case (Cons w ws)
  with assms(1) have "isWhiteSpace w" by simp
  then have "w \<noteq> 0x6A" by (auto simp: isWhiteSpace_def)
  with Cons show ?thesis by (simp add: json_letters)
next
  case Nil
  with assms(3) have np: "\<not> prefix (js ''json'') inner" by simp
  show ?thesis
  proof
    assume "prefix (js ''json'') (ws1 @ inner @ ws2 @ fence)"
    with Nil np obtain us where us: "js ''json'' = inner @ us" "prefix us (ws2 @ fence)"
      by (auto simp: prefix_append)
    with np have ne: "us \<noteq> []" by auto
    then have "hd us \<in> set (js ''json'')" using us(1) by (cases us) auto
    then have h: "\<not> isWhiteSpace (hd us) \<and> hd us \<noteq> 0x60"
      by (auto simp: json_letters isWhiteSpace_def)
    from ne us(2) have "hd us = hd (ws2 @ fence)"
      by (cases us) (auto simp: prefix_def)
    moreover have "isWhiteSpace (hd (ws2 @ fence)) \<or> hd (ws2 @ fence) = 0x60"
      using assms(2) by (cases ws2) (auto simp: fence_def)
    ultimately show False using h by auto
  qed
qed

lemma fenced_wrapped:
  assumes "tag = js ''json'' \<or> tag = [] \<and> (ws1 \<noteq> [] \<or> \<not> prefix (js ''json'') inner)"
    and "list_all isWhiteSpace ws1" and "list_all isWhiteSpace ws2"
    and "inner \<noteq> []" and "\<not> isWhiteSpace (hd inner)" and "\<not> isWhiteSpace (last inner)"
  shows "fenced (fence @ tag @ ws1 @ inner @ ws2 @ fence) = Some inner"
proof -
  have l: "length fence = 3" by (simp add: fence_def)
  have d: "dropWhile isWhiteSpace (ws1 @ inner @ ws2 @ fence) = inner @ ws2 @ fence"
    using assms(2,4,5) by (cases inner) (auto simp: dropWhile_append2 list_all_iff)
  have c: "capture [] (inner @ ws2 @ fence) = Some inner"
    using capture_inner [OF assms(3), of inner "[]"] assms(6) by simp
  from assms(1) show ?thesis
  proof
    assume t: "tag = js ''json''"
    have "length (js ''json'') = 4" by (simp add: js_def)
    then show ?thesis
      using l by (simp add: fenced_def t d c)
  next
    assume t: "tag = [] \<and> (ws1 \<noteq> [] \<or> \<not> prefix (js ''json'') inner)"
    then have "\<not> prefix (js ''json'') (ws1 @ inner @ ws2 @ fence)"
      using not_tagged [OF assms(2,3)] by simp
    then show ?thesis
      using l t by (simp add: fenced_def d c)
  qed
qed

lemma stripFence_plain:
  "\<not> prefix fence jsonStr \<or> \<not> suffix fence jsonStr \<Longrightarrow> stripFence jsonStr = jsonStr"
  by (simp add: stripFence_def fenceRegex_fenced fenced_None)

lemma stripFence_wrapped:
  assumes "tag = js ''json'' \<or> tag = [] \<and> (ws1 \<noteq> [] \<or> \<not> prefix (js ''json'') inner)"
    and "list_all isWhiteSpace ws1" and "list_all isWhiteSpace ws2"
    and "inner \<noteq> []" and "\<not> isWhiteSpace (hd inner)" and "\<not> isWhiteSpace (last inner)"
  shows "stripFence (fence @ tag @ ws1 @ inner @ ws2 @ fence) = inner"
  using fenced_wrapped [OF assms] assms(4) trim_id [OF assms(4,5,6)]
  by (simp add: stripFence_def fenceRegex_fenced)

section \<open>The response is unfenced, parsed and stored\<close>

lemma parse_sample:
  "JSON_parse sampleFeedback
     = Some (JObj [(js ''isCorrect'', JBool True), (js ''feedback'', JStr (js ''Good try!'')),
                   (js ''tip'', JStr (js ''Keep the tongue low.''))])"
  by code_simp

lemma sample_shape:
  "isFeedback (JObj [(js ''isCorrect'', JBool True), (js ''feedback'', JStr (js ''Good try!'')),
                   (js ''tip'', JStr (js ''Keep the tongue low.''))])"
  by (simp add: isFeedback_def isBool_def isText_def js_def) 

text \<open>
  C1, as the code has it. A text that does not both start and end with the fence is parsed
  as it is. A text made of the fence, an optional \<^verbatim>\<open>json\<close>, white space, a non-empty
  content that neither starts nor ends with white space, white space and the fence is
  parsed as its content (without the \<^verbatim>\<open>json\<close>, a content right after the fence must not
  itself start with \<^verbatim>\<open>json\<close>). When \<^verbatim>\<open>JSON.parse\<close> returns a value, that value, whatever
  its shape, is stored as the feedback and the status becomes \<^verbatim>\<open>result\<close>; when it throws,
  the analysis fails. Nothing checks that the value has the three fields.
\<close>

theorem response_unfenced_parsed_and_stored:
  "(\<not> prefix fence jsonStr \<or> \<not> suffix fence jsonStr \<longrightarrow> stripFence jsonStr = jsonStr)
   \<and> (tag = js ''json'' \<or> tag = [] \<and> (leading \<noteq> [] \<or> \<not> prefix (js ''json'') inner) \<longrightarrow>
        list_all isWhiteSpace leading \<longrightarrow> list_all isWhiteSpace trailing \<longrightarrow>
        inner \<noteq> [] \<longrightarrow> \<not> isWhiteSpace (hd inner) \<longrightarrow> \<not> isWhiteSpace (last inner) \<longrightarrow>
          stripFence (fence @ tag @ leading @ inner @ trailing @ fence) = inner)
   \<and> (parse (stripFence jsonStr) = Some v \<longrightarrow>
        analyzePronunciation parse True (AiText jsonStr) word ipa transcript
          = [SetStatus analyzing, SetError [], SetFeedback JNull,
             GenerateContent (js ''gemini-pro'') (js ''application/json'')
               (buildPrompt word ipa transcript),
             SetFeedback v, SetStatus result])
   \<and> (parse (stripFence jsonStr) = None \<longrightarrow>
        analyzePronunciation parse True (AiText jsonStr) word ipa transcript
          = [SetStatus analyzing, SetError [], SetFeedback JNull,
             GenerateContent (js ''gemini-pro'') (js ''application/json'')
               (buildPrompt word ipa transcript)]
            @ analysisFailed)"
  using stripFence_plain [of jsonStr] stripFence_wrapped [of tag leading inner trailing]
    analyze_ok [of True parse "AiText jsonStr" v word ipa transcript]
    analyze_failed [of True parse "AiText jsonStr" word ipa transcript]
  by (simp add: parsedResponse_def)

theorem response_unfenced_parsed_and_stored_witness:
  "list_all isWhiteSpace [0x0A] \<and> sampleFeedback \<noteq> []
   \<and> \<not> isWhiteSpace (hd sampleFeedback) \<and> \<not> isWhiteSpace (last sampleFeedback)
   \<and> stripFence (fence @ js ''json'' @ [0x0A] @ sampleFeedback @ [0x0A] @ fence) = sampleFeedback
   \<and> analyzePronunciation JSON_parse True
        (AiText (fence @ js ''json'' @ [0x0A] @ sampleFeedback @ [0x0A] @ fence))
        (js ''sea'') (js ''/si/'') (js ''she'')
       = [SetStatus analyzing, SetError [], SetFeedback JNull,
          GenerateContent (js ''gemini-pro'') (js ''application/json'')
            (buildPrompt (js ''sea'') (js ''/si/'') (js ''she'')),
          SetFeedback (JObj [(js ''isCorrect'', JBool True),
            (js ''feedback'', JStr (js ''Good try!'')),
            (js ''tip'', JStr (js ''Keep the tongue low.''))]),
          SetStatus result]
   \<and> isFeedback (JObj [(js ''isCorrect'', JBool True),
            (js ''feedback'', JStr (js ''Good try!'')),
            (js ''tip'', JStr (js ''Keep the tongue low.''))])"
proof -
  have w: "list_all isWhiteSpace [0x0A]"
    by (simp add: isWhiteSpace_def)
  have n: "sampleFeedback \<noteq> []"
    by (simp add: sampleFeedback_def js_def)
  have h: "\<not> isWhiteSpace (hd sampleFeedback)"
    by (simp add: sampleFeedback_def js_def isWhiteSpace_def)
  have l: "\<not> isWhiteSpace (last sampleFeedback)"
    by (simp add: sampleFeedback_def js_def isWhiteSpace_def)
  from response_unfenced_parsed_and_stored [where parse = JSON_parse
      and jsonStr = "fence @ js ''json'' @ [0x0A] @ sampleFeedback @ [0x0A] @ fence"
      and tag = "js ''json''" and leading = "[0x0A]" and inner = sampleFeedback
      and trailing = "[0x0A]"
      and v = "JObj [(js ''isCorrect'', JBool True), (js ''feedback'', JStr (js ''Good try!'')),
                   (js ''tip'', JStr (js ''Keep the tongue low.''))]"
      and word = "js ''sea''" and ipa = "js ''/si/''" and transcript = "js ''she''"]
    w n h l parse_sample sample_shape
  show ?thesis by simp
qed

text \<open>
  C1 as stated fails when the service returns \<^verbatim>\<open>{}\<close>: the empty object has none of the
  three fields and is stored as the feedback all the same.
\<close>

theorem response_counterexample:
  "analyzePronunciation JSON_parse True (AiText (js ''{}'')) (js ''sea'') (js ''/si/'') (js ''she'')
     = [SetStatus analyzing, SetError [], SetFeedback JNull,
        GenerateContent (js ''gemini-pro'') (js ''application/json'')
          (buildPrompt (js ''sea'') (js ''/si/'') (js ''she'')),
        SetFeedback (JObj []), SetStatus result]
   \<and> \<not> isFeedback (JObj [])"
proof -
  have "parsedResponse JSON_parse (AiText (js ''{}'')) = Some (JObj [])"
    by code_simp
  from analyze_ok [OF TrueI this] show ?thesis
    by (simp add: isFeedback_def)
qed


text \<open>
  The operations of C7 on a run that ends with the status \<^verbatim>\<open>result\<close>.
\<close>

theorem result_only_after_stored_feedback_witness:
  "status (applyEffects
      (handleRecord JSON_parse True True True MediaStream [OnResult [[Some (js ''she'')]], OnEnd]
         (AiText sampleFeedback) (js ''sea'') (js ''/si/''))
      \<lparr>currentItemIndex = 0, status = idle, activeWord = None, feedback = JNull, error = []\<rparr>)
     = result
   \<and> feedback (applyEffects
      (handleRecord JSON_parse True True True MediaStream [OnResult [[Some (js ''she'')]], OnEnd]
         (AiText sampleFeedback) (js ''sea'') (js ''/si/''))
      \<lparr>currentItemIndex = 0, status = idle, activeWord = None, feedback = JNull, error = []\<rparr>)
     = JObj [(js ''isCorrect'', JBool True), (js ''feedback'', JStr (js ''Good try!'')),
             (js ''tip'', JStr (js ''Keep the tongue low.''))]"
proof -
  have "\<not> prefix fence sampleFeedback"
    by (simp add: sampleFeedback_def js_def fence_def)
  then have p: "parsedResponse JSON_parse (AiText sampleFeedback)
      = Some (JObj [(js ''isCorrect'', JBool True), (js ''feedback'', JStr (js ''Good try!'')),
             (js ''tip'', JStr (js ''Keep the tongue low.''))])"
    by (simp add: parsedResponse_def stripFence_plain parse_sample)
  have n: "\<not> noSpeech (Some (js ''she''))"
    by (simp add: noSpeech_def trim_def js_def isWhiteSpace_def)
  have r: "recognizeSpeech True [OnResult [[Some (js ''she'')]], OnEnd]
      = ([RecognitionStart], Resolved (Some (js ''she'')))"
    by (simp add: recognizeSpeech_def)
  have s: "status (applyEffects
      (handleRecord JSON_parse True True True MediaStream [OnResult [[Some (js ''she'')]], OnEnd]
         (AiText sampleFeedback) (js ''sea'') (js ''/si/''))
      \<lparr>currentItemIndex = 0, status = idle, activeWord = None, feedback = JNull, error = []\<rparr>)
     = result"
    by (simp add: handleRecord_def r n analyze_ok [OF TrueI p] applyEffects_simps)
  from result_only_after_stored_feedback [where parse = JSON_parse and ai = True
      and mediaDevices = True and supported = True and media = MediaStream
      and events = "[OnResult [[Some (js ''she'')]], OnEnd]" and outcome = "AiText sampleFeedback"
      and word = "js ''sea''" and ipa = "js ''/si/''"
      and s = "\<lparr>currentItemIndex = 0, status = idle, activeWord = None, feedback = JNull,
        error = []\<rparr>"] s p
  show ?thesis by simp
qed

end
